theory Spec2Isabelle
  imports Complex_Main
begin

section \<open>Solar-term resolution (solarTerms.js): the embedding\<close>

text \<open>
  The module \<^verbatim>\<open>solarTerms.js\<close> maps an instant to the current solar term and the start
  instants of the previous, current and next term. It consumes the global \<^verbatim>\<open>Astronomy\<close>
  (astronomy-engine): \<^verbatim>\<open>SunPosition\<close> and \<^verbatim>\<open>SearchSunLongitude\<close>.

  JavaScript numbers are IEEE 754 binary64 values. Two kinds of number occur in the module:
  \<^item> degrees: arbitrary doubles. They are modelled as the real number they denote, every
    arithmetic operation that rounds is followed by the rounding function \<open>fl\<close>
    (round to nearest, ties to even). The sign of zero is not modelled: \<^verbatim>\<open>%\<close>, \<^verbatim>\<open><\<close>,
    \<^verbatim>\<open>+\<close>, \<^verbatim>\<open>/\<close>, \<^verbatim>\<open>Math.floor\<close> and array indexing treat \<^verbatim>\<open>-0\<close> as \<^verbatim>\<open>0\<close>.
  \<^item> time values: the millisecond count of a \<^verbatim>\<open>Date\<close>, an integer of magnitude at most
    8.64e15 (below 2^53) or NaN. They are modelled as \<open>int option\<close> (\<open>None\<close> is NaN);
    additions and subtractions of such integers are exact in binary64.
\<close>

subsection \<open>binary64 rounding\<close>

text \<open>\<open>trunc\<close>: rounding toward zero, as the quotient of \<^verbatim>\<open>%\<close> is taken.\<close>

definition trunc :: "real \<Rightarrow> int" where
  "trunc q = (if q < 0 then - \<lfloor>- q\<rfloor> else \<lfloor>q\<rfloor>)"

text \<open>
  \<^verbatim>\<open>x % y\<close> on finite numbers with \<open>y \<noteq> 0\<close>: the remainder of the truncating division,
  with the sign of the dividend. IEEE 754 computes it exactly (no rounding).
\<close>

definition js_rem :: "real \<Rightarrow> real \<Rightarrow> real" where
  "js_rem x y = x - y * of_int (trunc (x / y))"

text \<open>
  The binade of a magnitude \<open>a\<close>: the exponent \<open>k\<close> with \<open>2^k \<le> a < 2^(k+1)\<close>, clamped to the
  exponent range \<open>-1022 .. 1023\<close> of binary64 (below \<open>2^-1022\<close> lie the subnormal numbers,
  which share the spacing of the lowest binade). It is found by stepping up from exponent
  0 or down from exponent -1.
\<close>

function exp_up :: "int \<Rightarrow> real \<Rightarrow> int" where
  "exp_up k a = (if a < 2 powi (k + 1) \<or> 1023 \<le> k then k else exp_up (k + 1) a)"
  by pat_completeness auto
termination
  by (relation "measure (\<lambda>(k, a). nat (1023 - k))") auto

function exp_down :: "int \<Rightarrow> real \<Rightarrow> int" where
  "exp_down k a = (if 2 powi k \<le> a \<or> k \<le> - 1022 then k else exp_down (k - 1) a)"
  by pat_completeness auto
termination
  by (relation "measure (\<lambda>(k, a). nat (k + 1022))") auto

declare exp_up.simps [simp del] exp_down.simps [simp del]

definition binade :: "real \<Rightarrow> int" where
  "binade a = (if 1 \<le> a then exp_up 0 a else exp_down (- 1) a)"

text \<open>Rounding a real to the nearest integer, a tie going to the even one.\<close>

definition round_even :: "real \<Rightarrow> int" where
  "round_even q =
     (let n = \<lfloor>q\<rfloor>; r = q - of_int n
      in if r < 1 / 2 then n else if 1 / 2 < r then n + 1 else if even n then n else n + 1)"

text \<open>
  \<open>fl x\<close>: the binary64 value nearest to \<open>x\<close> (ties to even): the doubles of the binade \<open>k\<close>
  of \<open>x\<close> are the multiples of \<open>2^(k - 52)\<close>. Overflow to \<^verbatim>\<open>Infinity\<close> is not modelled: no
  operation of the module overflows on finite operands (it subtracts 315, adds 360 to a
  number between -360 and 0, and divides by 15).
\<close>

definition fl :: "real \<Rightarrow> real" where
  "fl x = (let g = binade \<bar>x\<bar> - 52 in of_int (round_even (x / 2 powi g)) * 2 powi g)"

text \<open>The reals that are finite binary64 values.\<close>

definition is_double :: "real \<Rightarrow> bool" where
  "is_double x = (fl x = x \<and> \<bar>x\<bar> < 2 powi 1024)"

subsection \<open>Dates\<close>

text \<open>
  A \<^verbatim>\<open>Date\<close> object holds a time value: NaN (an invalid date) or an integral number of
  milliseconds of magnitude at most 8.64e15. \<open>newDate\<close> is \<^verbatim>\<open>new Date(v)\<close> for a number
  \<open>v\<close> that is NaN or integral (the specification's TimeClip), \<open>getTime\<close> is
  \<^verbatim>\<open>date.getTime()\<close>.
\<close>

type_synonym time_value = "int option"

typedef jsdate = "{d :: time_value. case d of None \<Rightarrow> True | Some t \<Rightarrow> \<bar>t\<bar> \<le> 8640000000000000}"
  by (rule exI [of _ None]) simp

setup_lifting type_definition_jsdate

lift_definition getTime :: "jsdate \<Rightarrow> time_value" is "\<lambda>d. d" .

lift_definition newDate :: "time_value \<Rightarrow> jsdate" is
  "\<lambda>v. case v of None \<Rightarrow> None | Some t \<Rightarrow> if \<bar>t\<bar> \<le> 8640000000000000 then Some t else None"
  by (simp split: option.split)

definition MS_PER_MIN :: int where
  "MS_PER_MIN = 60 * 1000"

definition MS_PER_DAY :: int where
  "MS_PER_DAY = 24 * 60 * 60 * 1000"

text \<open>\<^verbatim>\<open>a > b\<close> on time values: false when either side is NaN.\<close>

definition js_gt :: "time_value \<Rightarrow> time_value \<Rightarrow> bool" where
  "js_gt a b = (case a of None \<Rightarrow> False | Some x \<Rightarrow> (case b of None \<Rightarrow> False | Some y \<Rightarrow> y < x))"

text \<open>
  \<^verbatim>\<open>new Date(Math.floor(date.getTime() / MS_PER_MIN) * MS_PER_MIN)\<close>. The division is a
  binary64 division and rounds; the product of the floor and 60000 is an integer below
  2^53 and exact. NaN propagates to an invalid date.
\<close>

definition floorToMinute :: "jsdate \<Rightarrow> jsdate" where
  "floorToMinute date =
     newDate (map_option (\<lambda>t. \<lfloor>fl (of_int t / of_int MS_PER_MIN)\<rfloor> * MS_PER_MIN) (getTime date))"

subsection \<open>The term table and the longitude mapping\<close>

text \<open>
  The names of the source are Chinese strings; the constructors are their pinyin
  transliterations, in the order of the table (lichun, yushui, jingzhe, ...).
\<close>

datatype term_name =
    LiChun | YuShui | JingZhe | ChunFen | QingMing | GuYu
  | LiXia | XiaoMan | MangZhong | XiaZhi | XiaoShu | DaShu
  | LiQiu | ChuShu | BaiLu | QiuFen | HanLu | ShuangJiang
  | LiDong | XiaoXue | DaXue | DongZhi | XiaoHan | DaHan

record solar_term =
  name :: term_name
  lon :: real

definition SOLAR_TERMS :: "solar_term list" where
  "SOLAR_TERMS =
     [\<lparr>name = LiChun, lon = 315\<rparr>, \<lparr>name = YuShui, lon = 330\<rparr>, \<lparr>name = JingZhe, lon = 345\<rparr>,
      \<lparr>name = ChunFen, lon = 0\<rparr>, \<lparr>name = QingMing, lon = 15\<rparr>, \<lparr>name = GuYu, lon = 30\<rparr>,
      \<lparr>name = LiXia, lon = 45\<rparr>, \<lparr>name = XiaoMan, lon = 60\<rparr>, \<lparr>name = MangZhong, lon = 75\<rparr>,
      \<lparr>name = XiaZhi, lon = 90\<rparr>, \<lparr>name = XiaoShu, lon = 105\<rparr>, \<lparr>name = DaShu, lon = 120\<rparr>,
      \<lparr>name = LiQiu, lon = 135\<rparr>, \<lparr>name = ChuShu, lon = 150\<rparr>, \<lparr>name = BaiLu, lon = 165\<rparr>,
      \<lparr>name = QiuFen, lon = 180\<rparr>, \<lparr>name = HanLu, lon = 195\<rparr>, \<lparr>name = ShuangJiang, lon = 210\<rparr>,
      \<lparr>name = LiDong, lon = 225\<rparr>, \<lparr>name = XiaoXue, lon = 240\<rparr>, \<lparr>name = DaXue, lon = 255\<rparr>,
      \<lparr>name = DongZhi, lon = 270\<rparr>, \<lparr>name = XiaoHan, lon = 285\<rparr>, \<lparr>name = DaHan, lon = 300\<rparr>]"

text \<open>\<^verbatim>\<open>const x = deg % 360; return x < 0 ? x + 360 : x;\<close> The addition rounds.\<close>

definition norm360 :: "real \<Rightarrow> real" where
  "norm360 deg = (let x = js_rem deg 360 in if x < 0 then fl (x + 360) else x)"

text \<open>
  \<^verbatim>\<open>const x = norm360(elonDeg - 315); return Math.floor(x / 15);\<close> The subtraction and the
  division round.
\<close>

definition termIndexFromElon :: "real \<Rightarrow> int" where
  "termIndexFromElon elonDeg = (let x = norm360 (fl (elonDeg - 315)) in \<lfloor>fl (x / 15)\<rfloor>)"

subsection \<open>The oracle, errors and the log of oracle calls\<close>

text \<open>
  What \<^verbatim>\<open>Astronomy.SearchSunLongitude\<close> may hand back, as \<^verbatim>\<open>toDateFromAstroTime\<close>
  tells the cases apart: a falsy value (\<^verbatim>\<open>null\<close>, \<^verbatim>\<open>undefined\<close>, ...), a \<^verbatim>\<open>Date\<close>, an object
  whose \<^verbatim>\<open>date\<close> field is a \<^verbatim>\<open>Date\<close> (an AstroTime), or any other truthy value \<open>v\<close>, which
  carries the date that \<^verbatim>\<open>new Date(v)\<close> constructs from it.
\<close>

datatype js_value = Falsy | DateObject jsdate | AstroTime jsdate | OtherValue jsdate

text \<open>
  The global \<^verbatim>\<open>Astronomy\<close> may be undefined, or lack either function. \<open>SunPosition\<close> stands
  for \<^verbatim>\<open>Astronomy.SunPosition(date).elon\<close>, a finite number.
\<close>

record astronomy =
  SunPosition :: "(jsdate \<Rightarrow> real) option"
  SearchSunLongitude :: "(real \<Rightarrow> jsdate \<Rightarrow> int \<Rightarrow> js_value) option"

record sun_oracle =
  sunPosition :: "jsdate \<Rightarrow> real"
  searchSunLongitude :: "real \<Rightarrow> jsdate \<Rightarrow> int \<Rightarrow> js_value"

datatype error =
    MissingAstronomy
  | AstronomyFunctionsNotFound
  | InvalidInputDate
  | FailedToFindSunLongitudeEvent real
  | TypeError

datatype oracle_call =
    SunPositionCall jsdate
  | SearchSunLongitudeCall real jsdate int

text \<open>
  A computation either throws or returns, and leaves the list of the oracle calls it made,
  in order.
\<close>

type_synonym 'a outcome = "(error + 'a) \<times> oracle_call list"

definition ok :: "'a \<Rightarrow> 'a outcome" where
  "ok x = (Inr x, [])"

definition throw :: "error \<Rightarrow> 'a outcome" where
  "throw e = (Inl e, [])"

definition and_then :: "'a outcome \<Rightarrow> ('a \<Rightarrow> 'b outcome) \<Rightarrow> 'b outcome" where
  "and_then m f =
     (case m of
        (Inl e, calls) \<Rightarrow> (Inl e, calls)
      | (Inr x, calls) \<Rightarrow> (case f x of (r, calls') \<Rightarrow> (r, calls @ calls')))"

definition callSunPosition :: "sun_oracle \<Rightarrow> jsdate \<Rightarrow> real outcome" where
  "callSunPosition A date = (Inr (sunPosition A date), [SunPositionCall date])"

definition callSearchSunLongitude :: "sun_oracle \<Rightarrow> real \<Rightarrow> jsdate \<Rightarrow> int \<Rightarrow> js_value outcome" where
  "callSearchSunLongitude A targetLon startDate limitDays =
     (Inr (searchSunLongitude A targetLon startDate limitDays),
      [SearchSunLongitudeCall targetLon startDate limitDays])"

subsection \<open>The functions of the module\<close>

definition assertAstronomy :: "astronomy option \<Rightarrow> sun_oracle outcome" where
  "assertAstronomy G =
     (case G of
        None \<Rightarrow> throw MissingAstronomy
      | Some A \<Rightarrow>
          (case SunPosition A of
             None \<Rightarrow> throw AstronomyFunctionsNotFound
           | Some sp \<Rightarrow>
               (case SearchSunLongitude A of
                  None \<Rightarrow> throw AstronomyFunctionsNotFound
                | Some ss \<Rightarrow> ok \<lparr>sunPosition = sp, searchSunLongitude = ss\<rparr>)))"

text \<open>\<open>None\<close> is \<^verbatim>\<open>null\<close>.\<close>

definition toDateFromAstroTime :: "js_value \<Rightarrow> jsdate option" where
  "toDateFromAstroTime t =
     (case t of
        Falsy \<Rightarrow> None
      | DateObject d \<Rightarrow> Some d
      | AstroTime d \<Rightarrow> Some d
      | OtherValue d \<Rightarrow> Some d)"

text \<open>
  The test \<^verbatim>\<open>!d || Number.isNaN(d.getTime())\<close> holds exactly when \<open>valid_date d\<close> is
  \<open>None\<close>; otherwise \<open>valid_date d\<close> is the date.
\<close>

definition valid_date :: "jsdate option \<Rightarrow> jsdate option" where
  "valid_date d =
     (case d of
        None \<Rightarrow> None
      | Some dt \<Rightarrow> (case getTime dt of None \<Rightarrow> None | Some t \<Rightarrow> Some dt))"

definition findSunLongitudeEvent :: "sun_oracle \<Rightarrow> real \<Rightarrow> jsdate \<Rightarrow> jsdate outcome" where
  "findSunLongitudeEvent A targetLon centerDate =
     (let start = newDate (map_option (\<lambda>c. c - 40 * MS_PER_DAY) (getTime centerDate));
          limitDays = 80
      in and_then (callSearchSunLongitude A (norm360 targetLon) start limitDays) (\<lambda>t.
         case valid_date (toDateFromAstroTime t) of
           Some d \<Rightarrow> ok d
         | None \<Rightarrow>
             (let start2 = newDate (map_option (\<lambda>c. c - 200 * MS_PER_DAY) (getTime centerDate));
                  limitDays2 = 400
              in and_then (callSearchSunLongitude A (norm360 targetLon) start2 limitDays2) (\<lambda>t2.
                 case valid_date (toDateFromAstroTime t2) of
                   Some d \<Rightarrow> ok d
                 | None \<Rightarrow> throw (FailedToFindSunLongitudeEvent targetLon)))))"

text \<open>
  \<^verbatim>\<open>SOLAR_TERMS[idx].lon\<close>: outside the table the element is \<^verbatim>\<open>undefined\<close> and reading a
  field of it throws a TypeError.
\<close>

definition term_at :: "int \<Rightarrow> solar_term outcome" where
  "term_at idx =
     (if 0 \<le> idx \<and> idx < int (length SOLAR_TERMS) then ok (SOLAR_TERMS ! nat idx)
      else throw TypeError)"

text \<open>
  The argument of \<^verbatim>\<open>getSolarTermInfo\<close>: a \<^verbatim>\<open>Date\<close>, or a string or number \<open>v\<close>, which
  carries the date that \<^verbatim>\<open>new Date(v)\<close> constructs from it.
\<close>

datatype input_date = DateInput jsdate | CoercedInput jsdate

definition toDate :: "input_date \<Rightarrow> jsdate" where
  "toDate inputDate = (case inputDate of DateInput d \<Rightarrow> d | CoercedInput d \<Rightarrow> d)"

record term_start = solar_term +
  startTime :: jsdate

record term_window = term_start +
  endTime :: jsdate

record meta_info =
  sunEclipticLongitude :: real
  computedAt :: jsdate

record solar_term_info =
  current :: term_window
  previous :: term_start
  "next" :: term_start
  meta :: meta_info

text \<open>
  \<open>getSolarTermInfo G now inputDate\<close>: \<open>G\<close> is the global \<^verbatim>\<open>Astronomy\<close>, \<open>now\<close> the date that
  \<^verbatim>\<open>new Date()\<close> returns when the result is built. The index is at least 0 where \<^verbatim>\<open>%\<close> is applied
  to it, so \<^verbatim>\<open>%\<close> is \<open>mod\<close> there.
\<close>

definition getSolarTermInfo :: "astronomy option \<Rightarrow> jsdate \<Rightarrow> input_date \<Rightarrow> solar_term_info outcome" where
  "getSolarTermInfo G now inputDate =
     and_then (assertAstronomy G) (\<lambda>A.
     let date = toDate inputDate in
     if getTime date = None then throw InvalidInputDate
     else
       and_then (callSunPosition A date) (\<lambda>e.
       let elon = norm360 e; idx0 = termIndexFromElon elon in
       and_then (term_at idx0) (\<lambda>term0.
       and_then (findSunLongitudeEvent A (lon term0) date) (\<lambda>currentStart0.
       and_then
         (if js_gt (getTime currentStart0) (getTime date)
          then (let idx1 = (idx0 + 23) mod 24 in
                and_then (term_at idx1) (\<lambda>term1.
                and_then (findSunLongitudeEvent A (lon term1) date) (\<lambda>currentStart1.
                ok (idx1, term1, currentStart1))))
          else ok (idx0, term0, currentStart0))
         (\<lambda>(idx, term, currentStart).
       let prevIdx = (idx + 23) mod 24; nextIdx = (idx + 1) mod 24 in
       and_then (term_at prevIdx) (\<lambda>prevTerm.
       and_then (findSunLongitudeEvent A (lon prevTerm) date) (\<lambda>prevStart.
       and_then (term_at nextIdx) (\<lambda>nextTerm.
       and_then (findSunLongitudeEvent A (lon nextTerm) date) (\<lambda>nextStart.
       ok \<lparr>current = \<lparr>name = name term, lon = lon term,
                       startTime = floorToMinute currentStart, endTime = floorToMinute nextStart\<rparr>,
           previous = \<lparr>name = name prevTerm, lon = lon prevTerm,
                        startTime = floorToMinute prevStart\<rparr>,
           next = \<lparr>name = name nextTerm, lon = lon nextTerm,
                         startTime = floorToMinute nextStart\<rparr>,
           meta = \<lparr>sunEclipticLongitude = elon, computedAt = now\<rparr>\<rparr>)))))))))"

subsection \<open>The phases of getSolarTermInfo\<close>

text \<open>
  Two parts of the body of \<^verbatim>\<open>getSolarTermInfo\<close>, named for the proofs: the correction of
  the index (the \<^verbatim>\<open>if\<close> after the first boundary search) and the rest (the two adjacent
  boundary searches and the construction of the result).
\<close>

definition correctionPhase ::
  "sun_oracle \<Rightarrow> jsdate \<Rightarrow> int \<Rightarrow> solar_term \<Rightarrow> jsdate \<Rightarrow> (int \<times> solar_term \<times> jsdate) outcome" where
  "correctionPhase A date idx0 term0 currentStart0 =
     (if js_gt (getTime currentStart0) (getTime date)
      then (let idx1 = (idx0 + 23) mod 24 in
            and_then (term_at idx1) (\<lambda>term1.
            and_then (findSunLongitudeEvent A (lon term1) date) (\<lambda>currentStart1.
            ok (idx1, term1, currentStart1))))
      else ok (idx0, term0, currentStart0))"

definition adjacentPhase ::
  "sun_oracle \<Rightarrow> jsdate \<Rightarrow> jsdate \<Rightarrow> real \<Rightarrow> int \<Rightarrow> solar_term \<Rightarrow> jsdate \<Rightarrow> solar_term_info outcome" where
  "adjacentPhase A date now elon idx term currentStart =
     (let prevIdx = (idx + 23) mod 24; nextIdx = (idx + 1) mod 24 in
      and_then (term_at prevIdx) (\<lambda>prevTerm.
      and_then (findSunLongitudeEvent A (lon prevTerm) date) (\<lambda>prevStart.
      and_then (term_at nextIdx) (\<lambda>nextTerm.
      and_then (findSunLongitudeEvent A (lon nextTerm) date) (\<lambda>nextStart.
      ok \<lparr>current = \<lparr>name = name term, lon = lon term,
                      startTime = floorToMinute currentStart, endTime = floorToMinute nextStart\<rparr>,
          previous = \<lparr>name = name prevTerm, lon = lon prevTerm,
                       startTime = floorToMinute prevStart\<rparr>,
          next = \<lparr>name = name nextTerm, lon = lon nextTerm,
                        startTime = floorToMinute nextStart\<rparr>,
          meta = \<lparr>sunEclipticLongitude = elon, computedAt = now\<rparr>\<rparr>)))))"

subsection \<open>Properties of results\<close>

text \<open>
  A date has zero seconds and milliseconds when its time value is a multiple of 60000
  (a time value counts milliseconds, a day has 86400000 of them and there are no leap
  seconds).
\<close>

definition whole_minute :: "jsdate \<Rightarrow> bool" where
  "whole_minute d = (case getTime d of None \<Rightarrow> False | Some t \<Rightarrow> t mod 60000 = 0)"

text \<open>\<open>floored_from raw d\<close>: \<open>d\<close> is the whole minute in which the instant \<open>raw\<close> lies.\<close>

definition floored_from :: "jsdate \<Rightarrow> jsdate \<Rightarrow> bool" where
  "floored_from raw d =
     (case getTime raw of
        None \<Rightarrow> False
      | Some t \<Rightarrow> (case getTime d of None \<Rightarrow> False | Some s \<Rightarrow> s mod 60000 = 0 \<and> s \<le> t \<and> t < s + 60000))"

text \<open>
  The boundary instant that the oracle yields for the term of index \<open>i\<close> (taken modulo 24)
  around \<open>date\<close>, as \<open>findSunLongitudeEvent\<close> finds it; \<open>None\<close> when the search fails.
\<close>

definition boundary :: "sun_oracle \<Rightarrow> jsdate \<Rightarrow> int \<Rightarrow> time_value" where
  "boundary A date i =
     (case fst (findSunLongitudeEvent A (lon (SOLAR_TERMS ! nat (i mod 24))) date) of
        Inl e \<Rightarrow> None
      | Inr d \<Rightarrow> getTime d)"

text \<open>
  The oracle returns correct boundary instants around \<open>date\<close>, those of term \<open>j\<close>: the term \<open>j\<close>
  began at or before \<open>date\<close> and its successor begins after it, consecutive boundaries are at
  least a minute apart (those of the solar terms are about fifteen days apart), and the
  longitude that the oracle reads at \<open>date\<close> is mapped to \<open>j\<close> or, when the discretisation
  overshoots next to a boundary, to its successor.
\<close>

definition boundaries_correct :: "sun_oracle \<Rightarrow> jsdate \<Rightarrow> int \<Rightarrow> bool" where
  "boundaries_correct A date j =
     (case getTime date of None \<Rightarrow> False | Some t \<Rightarrow>
      case boundary A date (j + 23) of None \<Rightarrow> False | Some tp \<Rightarrow>
      case boundary A date j of None \<Rightarrow> False | Some tc \<Rightarrow>
      case boundary A date (j + 1) of None \<Rightarrow> False | Some tn \<Rightarrow>
        0 \<le> j \<and> j < 24 \<and> tp + 60000 \<le> tc \<and> tc \<le> t \<and> t < tn \<and> tc + 60000 \<le> tn
        \<and> (termIndexFromElon (norm360 (sunPosition A date)) = j
           \<or> termIndexFromElon (norm360 (sunPosition A date)) = (j + 1) mod 24))"

subsection \<open>An example oracle\<close>

text \<open>
  The instants, in milliseconds since the epoch, at which the sun reaches the longitudes
  255, 270 and 285 around the turn of the year 2024/2025 (2024-12-06 15:17:02,
  2024-12-21 09:20:34 and 2025-01-05 02:32:47 UTC). The example search returns such an
  instant when it lies in the window, and nothing otherwise.
\<close>

definition example_event :: "real \<Rightarrow> int option" where
  "example_event l =
     (if l = 255 then Some 1733498222000
      else if l = 270 then Some 1734772834000
      else if l = 285 then Some 1736044367000
      else None)"

definition example_search :: "real \<Rightarrow> jsdate \<Rightarrow> int \<Rightarrow> js_value" where
  "example_search l start limitDays =
     (case example_event l of
        None \<Rightarrow> Falsy
      | Some e \<Rightarrow>
          (case getTime start of
             None \<Rightarrow> Falsy
           | Some s \<Rightarrow>
               if s \<le> e \<and> e \<le> s + limitDays * 86400000 then AstroTime (newDate (Some e))
               else Falsy))"

definition example_astronomy :: "real \<Rightarrow> astronomy option" where
  "example_astronomy elon =
     Some \<lparr>SunPosition = Some (\<lambda>d. elon), SearchSunLongitude = Some example_search\<rparr>"

definition example_oracle :: "real \<Rightarrow> sun_oracle" where
  "example_oracle elon = \<lparr>sunPosition = (\<lambda>d. elon), searchSunLongitude = example_search\<rparr>"

text \<open>The query instant 2025-01-05 02:32:20 UTC and a wall clock reading 02:32:25.678.\<close>

definition example_date :: jsdate where
  "example_date = newDate (Some 1736044340000)"

definition example_now :: jsdate where
  "example_now = newDate (Some 1736044345678)"

text \<open>
  Two longitude readings next to the boundary 285 of the term XiaoHan, both binary64
  values: just below it and just above it.
\<close>

definition example_elon_before :: real where
  "example_elon_before = 285 - 1 / 4096"

definition example_elon_after :: real where
  "example_elon_after = 285 + 1 / 4096"

text \<open>
  An oracle whose 80-day window never finds anything and whose 400-day window always
  returns 2025-01-05 02:32:47 UTC, an instant after the example query.
\<close>

definition late_search :: "real \<Rightarrow> jsdate \<Rightarrow> int \<Rightarrow> js_value" where
  "late_search l start limitDays =
     (if limitDays = 80 then Falsy else AstroTime (newDate (Some 1736044367000)))"

definition late_astronomy :: "astronomy option" where
  "late_astronomy =
     Some \<lparr>SunPosition = Some (\<lambda>d. example_elon_before), SearchSunLongitude = Some late_search\<rparr>"

definition late_oracle :: sun_oracle where
  "late_oracle = \<lparr>sunPosition = (\<lambda>d. example_elon_before), searchSunLongitude = late_search\<rparr>"

subsection \<open>Replacing the wall clock reading\<close>

text \<open>The outcome \<open>m\<close> with the field \<^verbatim>\<open>meta.computedAt\<close> of its result, if any, set to \<open>c\<close>.\<close>

definition with_computedAt :: "jsdate \<Rightarrow> solar_term_info outcome \<Rightarrow> solar_term_info outcome" where
  "with_computedAt c m =
     (case m of
        (Inl e, calls) \<Rightarrow> (Inl e, calls)
      | (Inr r, calls) \<Rightarrow> (Inr (r\<lparr>meta := (meta r)\<lparr>computedAt := c\<rparr>\<rparr>), calls))"

text \<open>
  The result for the example query: the term DongZhi (winter solstice), with the boundary
  instants floored to the minute.
\<close>

definition example_result :: "real \<Rightarrow> solar_term_info" where
  "example_result elon =
     \<lparr>current = \<lparr>name = DongZhi, lon = 270, startTime = newDate (Some 1734772800000),
                  endTime = newDate (Some 1736044320000)\<rparr>,
      previous = \<lparr>name = DaXue, lon = 255, startTime = newDate (Some 1733498220000)\<rparr>,
      next = \<lparr>name = XiaoHan, lon = 285, startTime = newDate (Some 1736044320000)\<rparr>,
      meta = \<lparr>sunEclipticLongitude = elon, computedAt = example_now\<rparr>\<rparr>"

definition example_calls :: "oracle_call list" where
  "example_calls =
     [SunPositionCall example_date,
      SearchSunLongitudeCall 270 (newDate (Some 1732588340000)) 80,
      SearchSunLongitudeCall 255 (newDate (Some 1732588340000)) 80,
      SearchSunLongitudeCall 285 (newDate (Some 1732588340000)) 80]"

definition example_calls_corrected :: "oracle_call list" where
  "example_calls_corrected =
     [SunPositionCall example_date,
      SearchSunLongitudeCall 285 (newDate (Some 1732588340000)) 80,
      SearchSunLongitudeCall 270 (newDate (Some 1732588340000)) 80,
      SearchSunLongitudeCall 255 (newDate (Some 1732588340000)) 80,
      SearchSunLongitudeCall 285 (newDate (Some 1732588340000)) 80]"

text \<open>
  A query exactly at the boundary 2024-12-21 09:20:34 UTC of DongZhi, with the longitude
  reading 270, and its result.
\<close>

definition boundary_date :: jsdate where
  "boundary_date = newDate (Some 1734772834000)"

definition boundary_result :: solar_term_info where
  "boundary_result =
     \<lparr>current = \<lparr>name = DongZhi, lon = 270, startTime = newDate (Some 1734772800000),
                  endTime = newDate (Some 1736044320000)\<rparr>,
      previous = \<lparr>name = DaXue, lon = 255, startTime = newDate (Some 1733498220000)\<rparr>,
      next = \<lparr>name = XiaoHan, lon = 285, startTime = newDate (Some 1736044320000)\<rparr>,
      meta = \<lparr>sunEclipticLongitude = 270, computedAt = example_now\<rparr>\<rparr>"

definition boundary_calls :: "oracle_call list" where
  "boundary_calls =
     [SunPositionCall boundary_date,
      SearchSunLongitudeCall 270 (newDate (Some 1731316834000)) 80,
      SearchSunLongitudeCall 255 (newDate (Some 1731316834000)) 80,
      SearchSunLongitudeCall 285 (newDate (Some 1731316834000)) 80]"

subsection \<open>Auxiliary notions for the proofs about rounding\<close>

text \<open>The multiples of \<open>2^-44\<close>: the spacing of the doubles between 256 and 512.\<close>

definition on_grid44 :: "real \<Rightarrow> bool" where
  "on_grid44 x = (\<exists>N::int. x = of_int N / 2 ^ 44)"

subsection \<open>More example oracles\<close>

text \<open>An oracle whose search never finds anything.\<close>

definition never_search :: "real \<Rightarrow> jsdate \<Rightarrow> int \<Rightarrow> js_value" where
  "never_search l start limitDays = Falsy"

definition never_astronomy :: "astronomy option" where
  "never_astronomy =
     Some \<lparr>SunPosition = Some (\<lambda>d. example_elon_before), SearchSunLongitude = Some never_search\<rparr>"

definition never_oracle :: sun_oracle where
  "never_oracle = \<lparr>sunPosition = (\<lambda>d. example_elon_before), searchSunLongitude = never_search\<rparr>"

text \<open>
  A query instant in the term DaXue (2024-12-10 03:06:40 UTC), whose predecessor the
  example oracle does not know.
\<close>

definition daxue_date :: jsdate where
  "daxue_date = newDate (Some 1733800000000)"

text \<open>
  A date 100 days after the earliest instant a \<^verbatim>\<open>Date\<close> can hold
  (\<open>-8640000000000000 + 100 * 86400000\<close>).
\<close>

definition early_date :: jsdate where
  "early_date = newDate (Some (- 8639991360000000))"

subsection \<open>The search windows as the specification words them\<close>

text \<open>
  The window of a search call: the time value of its start date and its number of days.
\<close>

fun search_window :: "oracle_call \<Rightarrow> (time_value \<times> int) option" where
  "search_window (SearchSunLongitudeCall l start limitDays) = Some (getTime start, limitDays)"
| "search_window (SunPositionCall d) = None"

text \<open>
  The specification's words for the calls of a boundary search around the instant \<open>c\<close>: one
  search whose window begins 40 days before \<open>c\<close> and spans 80 days, or that search and then
  one whose window begins 200 days before \<open>c\<close> and spans 400 days.
\<close>

definition windows_as_specified :: "int \<Rightarrow> oracle_call list \<Rightarrow> bool" where
  "windows_as_specified c calls =
     (map search_window calls = [Some (Some (c - 40 * MS_PER_DAY), 80)]
      \<or> map search_window calls =
           [Some (Some (c - 40 * MS_PER_DAY), 80), Some (Some (c - 200 * MS_PER_DAY), 400)])"

section \<open>Properties of binary64 rounding\<close>

lemma exp_up_range: "k \<le> 1023 \<Longrightarrow> k \<le> exp_up k a \<and> exp_up k a \<le> 1023"
proof (induction k a rule: exp_up.induct)
  case (1 k a)
  then show ?case by (subst (1 2) exp_up.simps) auto
qed

lemma exp_up_upper: "a < 2 powi 1024 \<Longrightarrow> k \<le> 1023 \<Longrightarrow> a < 2 powi (exp_up k a + 1)"
proof (induction k a rule: exp_up.induct)
  case (1 k a)
  show ?case
  proof (cases "a < 2 powi (k + 1) \<or> 1023 \<le> k")
    case True
    with 1 have "k = 1023 \<or> a < 2 powi (k + 1)" by auto
    with 1 True show ?thesis by (subst exp_up.simps) auto
  next
    case False
    with 1 show ?thesis by (subst exp_up.simps) auto
  qed
qed

lemma exp_up_lower: "2 powi k \<le> a \<Longrightarrow> 2 powi (exp_up k a) \<le> a"
proof (induction k a rule: exp_up.induct)
  case (1 k a)
  then show ?case by (subst exp_up.simps) auto
qed

lemma exp_down_range: "- 1022 \<le> k \<Longrightarrow> - 1022 \<le> exp_down k a \<and> exp_down k a \<le> k"
proof (induction k a rule: exp_down.induct)
  case (1 k a)
  then show ?case by (subst (1 2) exp_down.simps) auto
qed

lemma exp_down_upper: "a < 2 powi (k + 1) \<Longrightarrow> a < 2 powi (exp_down k a + 1)"
proof (induction k a rule: exp_down.induct)
  case (1 k a)
  then show ?case by (subst exp_down.simps) auto
qed

lemma exp_down_lower: "- 1022 < exp_down k a \<Longrightarrow> 2 powi (exp_down k a) \<le> a"
proof (induction k a rule: exp_down.induct)
  case (1 k a)
  show ?case
  proof (cases "2 powi k \<le> a \<or> k \<le> - 1022")
    case True
    with 1(2) show ?thesis by (subst exp_down.simps, subst (asm) exp_down.simps) auto
  next
    case False
    with 1 show ?thesis by (subst exp_down.simps, subst (asm) exp_down.simps) auto
  qed
qed

lemma binade_range: "- 1022 \<le> binade a \<and> binade a \<le> 1023"
  using exp_up_range [of 0 a] exp_down_range [of "- 1" a] by (auto simp: binade_def)

lemma binade_upper: "a < 2 powi 1024 \<Longrightarrow> a < 2 powi (binade a + 1)"
  using exp_up_upper [of a 0] exp_down_upper [of a "- 1"] by (auto simp: binade_def)

lemma binade_lower: "- 1022 < binade a \<Longrightarrow> 2 powi (binade a) \<le> a"
  using exp_up_lower [of 0 a] exp_down_lower [of "- 1" a] by (auto simp: binade_def)

lemma two_powi_less: "(2::real) powi m < 2 powi n \<longleftrightarrow> m < n"
  by (metis linorder_not_less numeral_One numeral_less_iff order_less_imp_le power_int_increasing
      power_int_strict_increasing semiring_norm(76))

lemma two_powi_le: "(2::real) powi m \<le> 2 powi n \<longleftrightarrow> m \<le> n"
  by (metis two_powi_less linorder_not_less)

lemma binade_eq:
  assumes "2 powi k \<le> a" "a < 2 powi (k + 1)" "- 1022 \<le> k" "k \<le> 1023"
  shows "binade a = k"
proof -
  have "(2::real) powi (k + 1) \<le> 2 powi 1024" by (rule iffD2 [OF two_powi_le]) (use assms(4) in simp)
  with assms(2) have a: "a < 2 powi 1024" by simp
  have u: "a < 2 powi (binade a + 1)" by (rule binade_upper [OF a])
  have "\<not> k < binade a"
  proof
    assume h: "k < binade a"
    with assms(3) have "2 powi (binade a) \<le> a" by (intro binade_lower) simp
    with assms(2) have "(2::real) powi (binade a) < 2 powi (k + 1)" by simp
    then have "binade a < k + 1" by (simp only: two_powi_less)
    with h show False by simp
  qed
  moreover have "\<not> binade a < k"
  proof
    assume h: "binade a < k"
    from u assms(1) have "(2::real) powi k < 2 powi (binade a + 1)" by simp
    then have "k < binade a + 1" by (simp only: two_powi_less)
    with h show False by simp
  qed
  ultimately show ?thesis by simp
qed

lemma round_even_cases: "round_even q = \<lfloor>q\<rfloor> \<or> round_even q = \<lfloor>q\<rfloor> + 1"
  by (simp add: round_even_def Let_def)

lemma round_even_of_int: "round_even (of_int n) = n"
  by (simp add: round_even_def)

lemma round_even_nearest: "\<bar>of_int (round_even q) - q\<bar> \<le> \<bar>of_int n - q\<bar>"
proof -
  define f where "f = \<lfloor>q\<rfloor>"
  have fq: "of_int f \<le> q" "q < of_int f + 1" unfolding f_def by linarith+
  have "(round_even q = f \<and> q - of_int f \<le> 1 / 2) \<or> (round_even q = f + 1 \<and> 1 / 2 \<le> q - of_int f)"
    unfolding round_even_def Let_def f_def [symmetric] by auto
  then have m: "\<bar>of_int (round_even q) - q\<bar> \<le> q - of_int f"
    "\<bar>of_int (round_even q) - q\<bar> \<le> of_int f + 1 - q"
    using fq by auto
  have "n \<le> f \<or> f + 1 \<le> n" by linarith
  then show ?thesis
  proof
    assume "n \<le> f"
    then have "real_of_int n \<le> of_int f" by simp
    with m fq show ?thesis by linarith
  next
    assume "f + 1 \<le> n"
    then have "real_of_int f + 1 \<le> of_int n" by linarith
    with m fq show ?thesis by linarith
  qed
qed

lemma round_even_bound:
  assumes "\<bar>q\<bar> < of_int N"
  shows "\<bar>round_even q\<bar> \<le> N"
proof -
  from assms have "q < of_int N" "- of_int N < q" by linarith+
  then have "\<lfloor>q\<rfloor> < N" "- N \<le> \<lfloor>q\<rfloor>" by (simp_all add: floor_less_iff le_floor_iff)
  with round_even_cases [of q] show ?thesis by linarith
qed

lemma fl_grid: "fl x = of_int (round_even (x / 2 powi (binade \<bar>x\<bar> - 52))) * 2 powi (binade \<bar>x\<bar> - 52)"
  by (simp add: fl_def Let_def)

lemma powi_split: "(2::real) powi a = 2 powi (a - b) * 2 powi b"
  by (simp flip: power_int_add)

lemma fl_on_grid:
  assumes "x = of_int m * 2 powi e" "binade \<bar>x\<bar> - 52 \<le> e"
  shows "fl x = x"
proof -
  define g where "g = binade \<bar>x\<bar> - 52"
  have "0 \<le> e - g" using assms(2) by (simp add: g_def)
  then have p: "(2::real) powi (e - g) = of_int (2 ^ nat (e - g))"
    by (simp add: power_int_nonneg_exp)
  have "x / 2 powi g = of_int m * 2 powi (e - g)"
    unfolding assms(1) by (subst powi_split [of e g]) simp
  also have "\<dots> = of_int (m * 2 ^ nat (e - g))" unfolding p by simp
  finally have "of_int (round_even (x / 2 powi g)) = x / 2 powi g"
    by (simp only: round_even_of_int)
  then show ?thesis unfolding fl_grid g_def [symmetric] by simp
qed

lemma fl_exact:
  assumes x: "x = of_int m * 2 powi e" and m: "\<bar>m\<bar> \<le> 2 ^ 53" and e: "- 1074 \<le> e"
  shows "fl x = x"
proof -
  define b where "b = binade \<bar>x\<bar>"
  show ?thesis
  proof (cases "b - 52 \<le> e")
    case True
    then show ?thesis using fl_on_grid [OF x] by (simp add: b_def)
  next
    case False
    with e have b: "- 1022 < b" by simp
    then have "2 powi b \<le> \<bar>x\<bar>" unfolding b_def by (rule binade_lower)
    also have "\<bar>x\<bar> = of_int \<bar>m\<bar> * 2 powi e" unfolding x by (simp add: abs_mult)
    also have "\<dots> \<le> 2 ^ 53 * 2 powi e"
    proof (rule mult_right_mono)
      from m have "real_of_int \<bar>m\<bar> \<le> real_of_int (2 ^ 53)" by (simp only: of_int_le_iff)
      then show "real_of_int \<bar>m\<bar> \<le> 2 ^ 53" by simp
    qed simp
    also have "\<dots> = 2 powi (53 + e)" by (simp add: power_int_add)
    finally have le: "(2::real) powi b \<le> 2 powi (53 + e)" .
    then have "b \<le> 53 + e" by (simp only: two_powi_le)
    with False have be: "b = 53 + e" by simp
    have "(2::real) ^ 53 * 2 powi e \<le> of_int \<bar>m\<bar> * 2 powi e"
      using \<open>2 powi b \<le> \<bar>x\<bar>\<close> unfolding be x by (simp add: abs_mult power_int_add)
    then have "(2::real) ^ 53 \<le> of_int \<bar>m\<bar>" by simp
    then have "real_of_int (2 ^ 53) \<le> of_int \<bar>m\<bar>" by simp
    then have "2 ^ 53 \<le> \<bar>m\<bar>" by (simp only: of_int_le_iff)
    with m have "\<bar>m\<bar> = 2 ^ 53" by simp
    then have "m = 2 * (if 0 \<le> m then 2 ^ 52 else - (2 ^ 52))" by auto
    then obtain m' where m': "m = 2 * m'" by blast
    have "x = of_int m' * 2 powi (e + 1)"
      unfolding x m' by (simp add: power_int_add)
    moreover have "binade \<bar>x\<bar> - 52 \<le> e + 1" using be by (simp add: b_def)
    ultimately show ?thesis by (rule fl_on_grid)
  qed
qed


lemma fl_nearest_grid: "\<bar>fl x - x\<bar> \<le> \<bar>of_int n * 2 powi (binade \<bar>x\<bar> - 52) - x\<bar>"
proof -
  define p :: real where "p = 2 powi (binade \<bar>x\<bar> - 52)"
  have p: "0 < p" by (simp add: p_def)
  have "\<bar>fl x - x\<bar> = \<bar>(of_int (round_even (x / p)) - x / p) * p\<bar>"
    using p by (simp add: fl_grid p_def [symmetric] algebra_simps)
  also have "\<dots> = \<bar>of_int (round_even (x / p)) - x / p\<bar> * p"
    using p by (simp add: abs_mult)
  also have "\<dots> \<le> \<bar>of_int n - x / p\<bar> * p"
    using p round_even_nearest [of "x / p" n] by (simp add: mult_right_mono)
  also have "\<dots> = \<bar>(of_int n - x / p) * p\<bar>" using p by (simp add: abs_mult)
  also have "\<dots> = \<bar>of_int n * p - x\<bar>" using p by (simp add: algebra_simps)
  finally show ?thesis by (simp add: p_def)
qed

lemma fl_nearest:
  assumes "is_double d"
  shows "\<bar>fl x - x\<bar> \<le> \<bar>d - x\<bar>"
proof -
  define b where "b = binade \<bar>x\<bar>"
  define c where "c = binade \<bar>d\<bar>"
  from assms have d: "fl d = d" and dlt: "\<bar>d\<bar> < 2 powi 1024" by (simp_all add: is_double_def)
  show ?thesis
  proof (cases "b \<le> c")
    case True
    define nd where "nd = round_even (d / 2 powi (c - 52))"
    have "d = of_int nd * 2 powi (c - 52)"
      using d unfolding nd_def c_def fl_grid [of d] by simp
    also have "(2::real) powi (c - 52) = 2 powi (c - b) * 2 powi (b - 52)"
      by (simp flip: power_int_add)
    also have "(2::real) powi (c - b) = of_int (2 ^ nat (c - b))"
      using True by (simp add: power_int_nonneg_exp)
    finally have "d = of_int (nd * 2 ^ nat (c - b)) * 2 powi (b - 52)" by simp
    then show ?thesis using fl_nearest_grid [of x "nd * 2 ^ nat (c - b)"] by (simp add: b_def)
  next
    case False
    then have cb: "c + 1 \<le> b" by simp
    with binade_range [of "\<bar>d\<bar>"] have "- 1022 < b" by (simp add: c_def)
    then have lo: "2 powi b \<le> \<bar>x\<bar>" unfolding b_def by (rule binade_lower)
    have "\<bar>d\<bar> < 2 powi (c + 1)" unfolding c_def using dlt by (rule binade_upper)
    also have "(2::real) powi (c + 1) \<le> 2 powi b" using cb by (simp only: two_powi_le)
    finally have dl: "\<bar>d\<bar> < 2 powi b" .
    define s :: int where "s = (if 0 \<le> x then 2 ^ 52 else - (2 ^ 52))"
    have "of_int s * (2::real) powi (b - 52) = (if 0 \<le> x then 1 else - 1) * (2 powi 52 * 2 powi (b - 52))"
      by (simp add: s_def)
    also have "(2::real) powi 52 * 2 powi (b - 52) = 2 powi b"
      using powi_split [of b "b - 52"] by (simp add: mult.commute)
    finally have s: "of_int s * (2::real) powi (b - 52) = (if 0 \<le> x then 1 else - 1) * 2 powi b" .
    have "\<bar>fl x - x\<bar> \<le> \<bar>of_int s * 2 powi (b - 52) - x\<bar>"
      unfolding b_def by (rule fl_nearest_grid)
    also have "\<dots> \<le> \<bar>d - x\<bar>" unfolding s using lo dl by (auto simp: abs_if split: if_splits)
    finally show ?thesis .
  qed
qed

lemma fl_le: "is_double d \<Longrightarrow> x \<le> d \<Longrightarrow> fl x \<le> d"
  using fl_nearest [of d x] by linarith

lemma fl_ge: "is_double d \<Longrightarrow> d \<le> x \<Longrightarrow> d \<le> fl x"
  using fl_nearest [of d x] by linarith

lemma is_double_exact:
  assumes x: "x = of_int m * 2 powi e" and m: "\<bar>m\<bar> \<le> 2 ^ 53" and e: "- 1074 \<le> e" "e \<le> 970"
  shows "is_double x"
proof -
  have "\<bar>x\<bar> = of_int \<bar>m\<bar> * 2 powi e" unfolding x by (simp add: abs_mult)
  also have "\<dots> \<le> 2 ^ 53 * 2 powi e"
  proof (rule mult_right_mono)
    from m have "real_of_int \<bar>m\<bar> \<le> real_of_int (2 ^ 53)" by (simp only: of_int_le_iff)
    then show "real_of_int \<bar>m\<bar> \<le> 2 ^ 53" by simp
  qed simp
  also have "\<dots> = 2 powi (53 + e)" by (simp add: power_int_add)
  also have "\<dots> < 2 powi 1024" using e(2) by (simp only: two_powi_less)
  finally have "\<bar>x\<bar> < 2 powi 1024" .
  with fl_exact [OF x m e(1)] show ?thesis by (simp add: is_double_def)
qed

lemma is_double_of_int: "\<bar>n\<bar> \<le> 2 ^ 53 \<Longrightarrow> is_double (of_int n)"
  by (rule is_double_exact [of _ n 0]) simp_all

lemma is_double_dyadic: "\<bar>m\<bar> \<le> 2 ^ 53 \<Longrightarrow> k \<le> 1074 \<Longrightarrow> is_double (of_int m / 2 ^ k)"
  by (rule is_double_exact [of _ m "- int k"]) (simp_all add: power_int_minus field_simps)

lemma floor_fl_div_minute:
  assumes t: "\<bar>t\<bar> \<le> 8640000000000000"
  shows "\<lfloor>fl (of_int t / 60000)\<rfloor> = t div 60000"
proof -
  define n where "n = t div 60000"
  define k where "k = t mod 60000"
  define q :: real where "q = of_int t / 60000"
  have k: "0 \<le> k" "k \<le> 59999" by (simp_all add: k_def) 
  have tnk: "t = 60000 * n + k" by (simp add: n_def k_def)
  have n: "\<bar>n\<bar> \<le> 144000000000" using t unfolding n_def by linarith
  have q: "q = of_int n + of_int k / 60000" by (simp add: q_def tnk)
  have kr: "0 \<le> real_of_int k" "real_of_int k \<le> 59999" using k by simp_all
  have "is_double (of_int n)" using n by (intro is_double_of_int) simp
  moreover have "of_int n \<le> q" using kr by (simp add: q)
  ultimately have lo: "of_int n \<le> fl q" by (rule fl_ge)
  define d :: real where "d = of_int ((n + 1) * 32768 - 1) / 2 ^ 15"
  have dd: "is_double d" unfolding d_def using n by (intro is_double_dyadic) simp_all
  have dv: "d = of_int n + 1 - 1 / 32768" by (simp add: d_def field_simps)
  have hi: "fl q < of_int n + 1"
  proof (cases "q \<le> d")
    case True
    with dd have "fl q \<le> d" by (rule fl_le)
    then show ?thesis by (simp add: dv)
  next
    case False
    with fl_nearest [OF dd, of q] have "fl q \<le> 2 * q - d" by linarith
    also have "\<dots> < of_int n + 1" using kr unfolding dv q by simp
    finally show ?thesis .
  qed
  from lo hi have "\<lfloor>fl q\<rfloor> = n" by linarith
  then show ?thesis by (simp add: q_def n_def)
qed

section \<open>Properties of dates\<close>

lemma getTime_newDate:
  "getTime (newDate v) =
     (case v of None \<Rightarrow> None | Some t \<Rightarrow> if \<bar>t\<bar> \<le> 8640000000000000 then Some t else None)"
  by transfer simp

lemma getTime_range: "getTime d = Some t \<Longrightarrow> \<bar>t\<bar> \<le> 8640000000000000"
  by transfer simp

lemma getTime_inject: "getTime a = getTime b \<longleftrightarrow> a = b"
  by transfer simp

lemma getTime_floorToMinute:
  "getTime (floorToMinute date) = map_option (\<lambda>t. t div 60000 * 60000) (getTime date)"
proof (cases "getTime date")
  case None
  then show ?thesis by (simp add: floorToMinute_def getTime_newDate)
next
  case (Some t)
  then have t: "\<bar>t\<bar> \<le> 8640000000000000" by (rule getTime_range)
  have "t div 60000 * 60000 \<le> t" by simp
  moreover have "- 144000000000 \<le> t div 60000" using t by linarith
  ultimately have "\<bar>t div 60000 * 60000\<bar> \<le> 8640000000000000" using t by linarith
  with Some floor_fl_div_minute [OF t] show ?thesis
    by (simp add: floorToMinute_def getTime_newDate MS_PER_MIN_def)
qed

section \<open>Properties of the module's functions\<close>

lemma and_then_ok: "and_then (ok x) f = f x"
  by (simp add: and_then_def ok_def split: prod.split)

lemma and_then_Inr:
  "and_then m f = (Inr y, c) \<longleftrightarrow> (\<exists>x c1 c2. m = (Inr x, c1) \<and> f x = (Inr y, c2) \<and> c = c1 @ c2)"
  by (auto simp: and_then_def split: prod.splits sum.splits)

lemma calls_and_then:
  assumes "length (snd m) \<le> a" and "\<And>x. length (snd (f x)) \<le> b"
  shows "length (snd (and_then m f)) \<le> a + b"
proof (cases m)
  case (Pair r c)
  show ?thesis
  proof (cases r)
    case (Inl e)
    with Pair assms(1) show ?thesis by (simp add: and_then_def)
  next
    case (Inr x)
    with Pair assms(1) assms(2) [of x] show ?thesis
      by (cases "f x") (simp add: and_then_def)
  qed
qed

lemma calls_if:
  "length (snd t) \<le> a \<Longrightarrow> length (snd e) \<le> b \<Longrightarrow> length (snd (if c then t else e)) \<le> max a b"
  by auto

lemma calls_case_prod3:
  "(\<And>a b c. length (snd (f a b c)) \<le> n) \<Longrightarrow> length (snd (case p of (a, b, c) \<Rightarrow> f a b c)) \<le> n"
  by (simp split: prod.split)

lemma calls_ok: "length (snd (ok x)) \<le> 0"
  by (simp add: ok_def)

lemma calls_throw: "length (snd (throw e)) \<le> 0"
  by (simp add: throw_def)

lemma calls_assertAstronomy: "length (snd (assertAstronomy G)) \<le> 0"
  by (simp add: assertAstronomy_def ok_def throw_def split: option.split)

lemma calls_term_at: "length (snd (term_at i)) \<le> 0"
  by (simp add: term_at_def ok_def throw_def)

lemma calls_callSunPosition: "length (snd (callSunPosition A d)) \<le> 1"
  by (simp add: callSunPosition_def)

lemma calls_findSunLongitudeEvent: "length (snd (findSunLongitudeEvent A l d)) \<le> 2"
  by (simp add: findSunLongitudeEvent_def callSearchSunLongitude_def and_then_def ok_def throw_def
      Let_def split: option.split)

lemma calls_getSolarTermInfo:
  "length (snd (getSolarTermInfo G now inputDate))
     \<le> 0 + max 0 (1 + (0 + (2 + (max (0 + (2 + 0)) 0 + (0 + (2 + (0 + (2 + 0))))))))"
  unfolding getSolarTermInfo_def Let_def
  by (intro calls_and_then calls_if calls_case_prod3 calls_ok calls_throw calls_assertAstronomy
      calls_term_at calls_callSunPosition calls_findSunLongitudeEvent)

lemma case_ok: "(case ok x of (r, c) \<Rightarrow> P r c) = P (Inr x) []"
  by (simp add: ok_def)

lemma term_at_ok: "0 \<le> i \<Longrightarrow> i < 24 \<Longrightarrow> term_at i = ok (SOLAR_TERMS ! nat i)"
  by (simp add: term_at_def SOLAR_TERMS_def)

lemma term_at_Inr: "term_at i = (Inr tm, c) \<longleftrightarrow> 0 \<le> i \<and> i < 24 \<and> tm = SOLAR_TERMS ! nat i \<and> c = []"
  by (auto simp: term_at_def SOLAR_TERMS_def ok_def throw_def)

lemma assertAstronomy_Inr: "assertAstronomy G = (Inr A, c) \<longleftrightarrow> assertAstronomy G = ok A \<and> c = []"
  by (auto simp: assertAstronomy_def ok_def throw_def split: option.splits)

lemma findSunLongitudeEvent_valid:
  "findSunLongitudeEvent A l d = (Inr x, c) \<Longrightarrow> \<exists>t. getTime x = Some t"
  by (auto simp: findSunLongitudeEvent_def callSearchSunLongitude_def and_then_def ok_def throw_def
      valid_date_def Let_def split: option.splits)

lemma getSolarTermInfo_eval:
  assumes A: "assertAstronomy G = ok A"
    and d: "toDate inputDate = date"
    and t: "getTime date = Some t"
    and e0: "termIndexFromElon (norm360 (sunPosition A date)) = idx0"
    and idx0: "0 \<le> idx0" "idx0 < 24"
    and b0: "findSunLongitudeEvent A (lon (SOLAR_TERMS ! nat idx0)) date = (Inr cs0, c0)"
    and idx: "idx = (if js_gt (getTime cs0) (Some t) then (idx0 + 23) mod 24 else idx0)"
    and b1: "findSunLongitudeEvent A (lon (SOLAR_TERMS ! nat idx)) date = (Inr cs, c1)"
    and b2: "findSunLongitudeEvent A (lon (SOLAR_TERMS ! nat ((idx + 23) mod 24))) date = (Inr ps, c2)"
    and b3: "findSunLongitudeEvent A (lon (SOLAR_TERMS ! nat ((idx + 1) mod 24))) date = (Inr ns, c3)"
  shows "getSolarTermInfo G now inputDate =
    (Inr \<lparr>current = \<lparr>name = name (SOLAR_TERMS ! nat idx), lon = lon (SOLAR_TERMS ! nat idx),
                     startTime = floorToMinute cs, endTime = floorToMinute ns\<rparr>,
          previous = \<lparr>name = name (SOLAR_TERMS ! nat ((idx + 23) mod 24)),
                      lon = lon (SOLAR_TERMS ! nat ((idx + 23) mod 24)), startTime = floorToMinute ps\<rparr>,
          next = \<lparr>name = name (SOLAR_TERMS ! nat ((idx + 1) mod 24)),
                       lon = lon (SOLAR_TERMS ! nat ((idx + 1) mod 24)), startTime = floorToMinute ns\<rparr>,
          meta = \<lparr>sunEclipticLongitude = norm360 (sunPosition A date), computedAt = now\<rparr>\<rparr>,
     SunPositionCall date # c0 @ (if js_gt (getTime cs0) (Some t) then c1 else []) @ c2 @ c3)"
proof -
  have r: "0 \<le> idx" "idx < 24" using idx0 by (auto simp: idx)
  have rp: "0 \<le> (idx + 23) mod 24" "(idx + 23) mod 24 < 24" by simp_all
  have rn: "0 \<le> (idx + 1) mod 24" "(idx + 1) mod 24 < 24" by simp_all
  note ta = term_at_ok [OF idx0] term_at_ok [OF r] term_at_ok [OF rp] term_at_ok [OF rn]
  have nt: "getTime date \<noteq> None" using t by simp
  have step: "and_then m f = (case f x of (r, c') \<Rightarrow> (r, c @ c'))" if "m = (Inr x, c)"
    for m :: "'a outcome" and f :: "'a \<Rightarrow> 'b outcome" and x c
    using that by (simp add: and_then_def)
  have corr: "(if js_gt (getTime cs0) (Some t)
          then and_then (term_at ((idx0 + 23) mod 24)) (\<lambda>term1.
               and_then (findSunLongitudeEvent A (lon term1) date) (\<lambda>currentStart1.
               ok ((idx0 + 23) mod 24, term1, currentStart1)))
          else ok (idx0, SOLAR_TERMS ! nat idx0, cs0))
      = (Inr (idx, SOLAR_TERMS ! nat idx, cs), if js_gt (getTime cs0) (Some t) then c1 else [])"
  proof (cases "js_gt (getTime cs0) (Some t)")
    case True
    with idx have i: "(idx0 + 23) mod 24 = idx" by simp
    show ?thesis using True by (simp add: i ta and_then_ok step [OF b1] case_ok)
  next
    case False
    with idx have i: "idx0 = idx" by simp
    from b0 b1 have "cs = cs0" by (simp add: i)
    with False show ?thesis by (simp add: i ok_def)
  qed
  show ?thesis
    unfolding getSolarTermInfo_def Let_def A and_then_ok d
    by (simp only: nt if_False callSunPosition_def
        step [OF refl] e0 term_at_ok [OF idx0] and_then_ok step [OF b0] t corr
        prod.case term_at_ok [OF rp] term_at_ok [OF rn] step [OF b2] step [OF b3] case_ok)
      simp
qed

lemma getSolarTermInfo_phases:
  "getSolarTermInfo G now inputDate =
     and_then (assertAstronomy G) (\<lambda>A.
     if getTime (toDate inputDate) = None then throw InvalidInputDate
     else
       and_then (callSunPosition A (toDate inputDate)) (\<lambda>e.
       and_then (term_at (termIndexFromElon (norm360 e))) (\<lambda>term0.
       and_then (findSunLongitudeEvent A (lon term0) (toDate inputDate)) (\<lambda>currentStart0.
       and_then (correctionPhase A (toDate inputDate) (termIndexFromElon (norm360 e)) term0 currentStart0)
         (\<lambda>(idx, term, currentStart).
            adjacentPhase A (toDate inputDate) now (norm360 e) idx term currentStart)))))"
  unfolding getSolarTermInfo_def correctionPhase_def adjacentPhase_def Let_def by (rule refl)

lemma adjacentPhase_Inr:
  "adjacentPhase A d now elon idx term cs = (Inr r, c) \<longleftrightarrow>
   (\<exists>ps c2 ns c3.
      findSunLongitudeEvent A (lon (SOLAR_TERMS ! nat ((idx + 23) mod 24))) d = (Inr ps, c2)
      \<and> findSunLongitudeEvent A (lon (SOLAR_TERMS ! nat ((idx + 1) mod 24))) d = (Inr ns, c3)
      \<and> r = \<lparr>current = \<lparr>name = name term, lon = lon term,
                      startTime = floorToMinute cs, endTime = floorToMinute ns\<rparr>,
          previous = \<lparr>name = name (SOLAR_TERMS ! nat ((idx + 23) mod 24)),
                       lon = lon (SOLAR_TERMS ! nat ((idx + 23) mod 24)),
                       startTime = floorToMinute ps\<rparr>,
          next = \<lparr>name = name (SOLAR_TERMS ! nat ((idx + 1) mod 24)),
                        lon = lon (SOLAR_TERMS ! nat ((idx + 1) mod 24)),
                        startTime = floorToMinute ns\<rparr>,
          meta = \<lparr>sunEclipticLongitude = elon, computedAt = now\<rparr>\<rparr>
      \<and> c = c2 @ c3)"
  by (auto simp: adjacentPhase_def Let_def and_then_Inr term_at_Inr ok_def)

lemma correctionPhase_Inr:
  "correctionPhase A d i0 t0 cs0 = (Inr x, c) \<longleftrightarrow>
   (js_gt (getTime cs0) (getTime d)
      \<and> (\<exists>cs. findSunLongitudeEvent A (lon (SOLAR_TERMS ! nat ((i0 + 23) mod 24))) d = (Inr cs, c)
            \<and> x = ((i0 + 23) mod 24, SOLAR_TERMS ! nat ((i0 + 23) mod 24), cs))
    \<or> \<not> js_gt (getTime cs0) (getTime d) \<and> x = (i0, t0, cs0) \<and> c = [])"
  by (auto simp: correctionPhase_def Let_def and_then_Inr term_at_Inr ok_def)

lemma getSolarTermInfo_Inr:
  assumes "getSolarTermInfo G now inputDate = (Inr r, calls)"
  obtains A t cs0 c0 cs c1 ps c2 ns c3 idx0 idx
  where "assertAstronomy G = ok A" and "getTime (toDate inputDate) = Some t"
    and "idx0 = termIndexFromElon (norm360 (sunPosition A (toDate inputDate)))"
    and "0 \<le> idx0" and "idx0 < 24"
    and "findSunLongitudeEvent A (lon (SOLAR_TERMS ! nat idx0)) (toDate inputDate) = (Inr cs0, c0)"
    and "idx = (if js_gt (getTime cs0) (Some t) then (idx0 + 23) mod 24 else idx0)"
    and "findSunLongitudeEvent A (lon (SOLAR_TERMS ! nat idx)) (toDate inputDate) = (Inr cs, c1)"
    and "findSunLongitudeEvent A (lon (SOLAR_TERMS ! nat ((idx + 23) mod 24))) (toDate inputDate) = (Inr ps, c2)"
    and "findSunLongitudeEvent A (lon (SOLAR_TERMS ! nat ((idx + 1) mod 24))) (toDate inputDate) = (Inr ns, c3)"
  using assms unfolding getSolarTermInfo_phases
  by (auto simp: and_then_Inr correctionPhase_Inr adjacentPhase_Inr assertAstronomy_Inr term_at_Inr
      callSunPosition_def throw_def split: if_splits)

lemma exp_up_upper': "k \<le> 1023 \<Longrightarrow> exp_up k a = 1023 \<or> a < 2 powi (exp_up k a + 1)"
proof (induction k a rule: exp_up.induct)
  case (1 k a)
  show ?case
  proof (cases "a < 2 powi (k + 1) \<or> 1023 \<le> k")
    case True
    with 1 have "k = 1023 \<or> a < 2 powi (k + 1)" by auto
    with 1 True show ?thesis by (subst (1 2) exp_up.simps) auto
  next
    case False
    with 1 show ?thesis by (subst (1 2) exp_up.simps) auto
  qed
qed

lemma js_rem_nonneg:
  assumes "0 \<le> x"
  shows "0 \<le> js_rem x 360" "js_rem x 360 < 360" "js_rem x 360 \<le> x"
    "js_rem x 360 = x - 360 * of_int \<lfloor>x / 360\<rfloor>"
proof -
  show e: "js_rem x 360 = x - 360 * of_int \<lfloor>x / 360\<rfloor>"
    using assms by (simp add: js_rem_def trunc_def)
  have "of_int \<lfloor>x / 360\<rfloor> \<le> x / 360" "x / 360 < of_int \<lfloor>x / 360\<rfloor> + 1" by linarith+
  then show "0 \<le> js_rem x 360" "js_rem x 360 < 360" unfolding e by (simp_all add: field_simps)
  have "0 \<le> \<lfloor>x / 360\<rfloor>" using assms by simp
  then have "0 \<le> real_of_int \<lfloor>x / 360\<rfloor>" by simp
  then show "js_rem x 360 \<le> x" unfolding e by simp
qed

lemma js_rem_neg:
  assumes "x < 0"
  shows "- 360 < js_rem x 360" "js_rem x 360 \<le> 0" "x \<le> js_rem x 360"
    "js_rem x 360 = x + 360 * of_int \<lfloor>- x / 360\<rfloor>"
proof -
  define k where "k = \<lfloor>- x / 360\<rfloor>"
  show e: "js_rem x 360 = x + 360 * of_int \<lfloor>- x / 360\<rfloor>"
    using assms by (simp add: js_rem_def trunc_def)
  have "of_int k \<le> - x / 360" "- x / 360 < of_int k + 1" unfolding k_def by linarith+
  then have "360 * of_int k \<le> 360 * (- x / 360)" "360 * (- x / 360) < 360 * (of_int k + 1)"
    by simp_all
  then have b: "360 * of_int k \<le> - x" "- x < 360 * of_int k + 360" by simp_all
  then show "- 360 < js_rem x 360" "js_rem x 360 \<le> 0" unfolding e k_def [symmetric] by linarith+
  have "0 \<le> k" using assms by (simp add: k_def)
  then have "0 \<le> real_of_int k" by simp
  then show "x \<le> js_rem x 360" unfolding e k_def [symmetric] by simp
qed

lemma js_rem_int: "\<exists>k::int. js_rem x 360 = x - 360 * of_int k"
  by (auto simp: js_rem_def)

lemma js_rem_small: "\<bar>x\<bar> < 360 \<Longrightarrow> js_rem x 360 = x"
proof (cases "0 \<le> x")
  case True
  assume "\<bar>x\<bar> < 360"
  with True have "\<lfloor>x / 360\<rfloor> = 0" by (simp add: floor_eq_iff)
  with js_rem_nonneg(4) [OF True] show ?thesis by simp
next
  case False
  assume "\<bar>x\<bar> < 360"
  with False have "\<lfloor>- x / 360\<rfloor> = 0" by (simp add: floor_eq_iff)
  with js_rem_neg(4) [of x] False show ?thesis by simp
qed

lemma is_double_0: "is_double 0"
  using is_double_of_int [of 0] by simp

lemma is_double_360: "is_double 360"
  using is_double_of_int [of 360] by simp

lemma norm360_range: "0 \<le> norm360 x \<and> norm360 x \<le> 360"
proof (cases "0 \<le> x")
  case True
  from js_rem_nonneg(1,2) [OF True] show ?thesis by (simp add: norm360_def Let_def)
next
  case False
  then have x: "x < 0" by simp
  note r = js_rem_neg(1,2) [OF x]
  show ?thesis
  proof (cases "js_rem x 360 < 0")
    case True
    have "0 \<le> fl (js_rem x 360 + 360)" using r by (intro fl_ge is_double_0) simp
    moreover have "fl (js_rem x 360 + 360) \<le> 360" using r by (intro fl_le is_double_360) simp
    ultimately show ?thesis using True by (simp add: norm360_def Let_def)
  next
    case False
    with r show ?thesis by (simp add: norm360_def Let_def)
  qed
qed

lemma findSunLongitudeEvent_unfold:
  "findSunLongitudeEvent A targetLon centerDate =
     (let start1 = newDate (map_option (\<lambda>c. c - 3456000000) (getTime centerDate));
          start2 = newDate (map_option (\<lambda>c. c - 17280000000) (getTime centerDate));
          call1 = SearchSunLongitudeCall (norm360 targetLon) start1 80;
          call2 = SearchSunLongitudeCall (norm360 targetLon) start2 400
      in case valid_date (toDateFromAstroTime (searchSunLongitude A (norm360 targetLon) start1 80)) of
           Some d \<Rightarrow> (Inr d, [call1])
         | None \<Rightarrow>
             (case valid_date (toDateFromAstroTime (searchSunLongitude A (norm360 targetLon) start2 400)) of
                Some d \<Rightarrow> (Inr d, [call1, call2])
              | None \<Rightarrow> (Inl (FailedToFindSunLongitudeEvent targetLon), [call1, call2])))"
  by (simp add: findSunLongitudeEvent_def callSearchSunLongitude_def and_then_def ok_def throw_def
      Let_def MS_PER_DAY_def split: option.split)

lemma assertAstronomy_example: "assertAstronomy (example_astronomy e) = ok (example_oracle e)"
  by (simp add: assertAstronomy_def example_astronomy_def example_oracle_def)

lemma norm360_id: "0 \<le> x \<Longrightarrow> x < 360 \<Longrightarrow> norm360 x = x"
  by (simp add: norm360_def js_rem_small)

lemma valid_date_AstroTime:
  "\<bar>t\<bar> \<le> 8640000000000000 \<Longrightarrow> valid_date (toDateFromAstroTime (AstroTime (newDate (Some t)))) = Some (newDate (Some t))"
  by (simp add: valid_date_def toDateFromAstroTime_def getTime_newDate)

lemma valid_date_Falsy: "valid_date (toDateFromAstroTime Falsy) = None"
  by (simp add: valid_date_def toDateFromAstroTime_def)

lemma example_find_255:
  "findSunLongitudeEvent (example_oracle e) 255 example_date =
     (Inr (newDate (Some 1733498222000)),
      [SearchSunLongitudeCall 255 (newDate (Some 1732588340000)) 80])"
  by (simp add: findSunLongitudeEvent_unfold example_oracle_def example_search_def example_event_def
      example_date_def getTime_newDate norm360_id valid_date_AstroTime)

lemma example_find_270:
  "findSunLongitudeEvent (example_oracle e) 270 example_date =
     (Inr (newDate (Some 1734772834000)),
      [SearchSunLongitudeCall 270 (newDate (Some 1732588340000)) 80])"
  by (simp add: findSunLongitudeEvent_unfold example_oracle_def example_search_def example_event_def
      example_date_def getTime_newDate norm360_id valid_date_AstroTime)

lemma example_find_285:
  "findSunLongitudeEvent (example_oracle e) 285 example_date =
     (Inr (newDate (Some 1736044367000)),
      [SearchSunLongitudeCall 285 (newDate (Some 1732588340000)) 80])"
  by (simp add: findSunLongitudeEvent_unfold example_oracle_def example_search_def example_event_def
      example_date_def getTime_newDate norm360_id valid_date_AstroTime)

lemma floor_fl_between:
  assumes "of_int n \<le> x" "x \<le> d" "is_double d" "d < of_int n + 1" "\<bar>n\<bar> \<le> 2 ^ 53"
  shows "\<lfloor>fl x\<rfloor> = n"
proof -
  have "of_int n \<le> fl x" using assms(1,5) by (intro fl_ge is_double_of_int)
  moreover have "fl x \<le> d" using assms(2,3) by (intro fl_le)
  ultimately show ?thesis using assms(4) by linarith
qed

lemma fl_dyadic: "\<bar>m\<bar> \<le> 2 ^ 53 \<Longrightarrow> k \<le> 1074 \<Longrightarrow> fl (of_int m / 2 ^ k) = of_int m / 2 ^ k"
  using is_double_dyadic [of m k] by (simp add: is_double_def)

lemma norm360_example_elon_before: "norm360 example_elon_before = example_elon_before"
  by (rule norm360_id) (simp_all add: example_elon_before_def)

lemma norm360_example_elon_after: "norm360 example_elon_after = example_elon_after"
  by (rule norm360_id) (simp_all add: example_elon_after_def)

lemma termIndex_before_285: "termIndexFromElon (norm360 example_elon_before) = 21"
proof -
  have a: "fl (- (122881 / 4096)) = - (122881 / 4096)"
    using fl_dyadic [of "- 122881" 12] by simp
  have b: "fl (1351679 / 4096) = 1351679 / 4096"
    using fl_dyadic [of "1351679" 12] by simp
  have c: "norm360 (- (122881 / 4096)) = 1351679 / 4096"
    using b by (simp add: norm360_def js_rem_small)
  have "is_double (of_int 1441791 / 2 ^ 16)" by (rule is_double_dyadic) simp_all
  then have d: "is_double (1441791 / 65536)" by simp
  have "\<lfloor>fl (1351679 / 61440)\<rfloor> = 21"
    by (rule floor_fl_between [OF _ _ d]) simp_all
  then show ?thesis
    unfolding norm360_example_elon_before
    by (simp add: termIndexFromElon_def example_elon_before_def a c)
qed

lemma termIndex_after_285: "termIndexFromElon (norm360 example_elon_after) = 22"
proof -
  have a: "fl (- (122879 / 4096)) = - (122879 / 4096)"
    using fl_dyadic [of "- 122879" 12] by simp
  have b: "fl (1351681 / 4096) = 1351681 / 4096"
    using fl_dyadic [of "1351681" 12] by simp
  have c: "norm360 (- (122879 / 4096)) = 1351681 / 4096"
    using b by (simp add: norm360_def js_rem_small)
  have "is_double (of_int 45 / 2 ^ 1)" by (rule is_double_dyadic) simp_all
  then have d: "is_double (45 / 2)" by simp
  have "\<lfloor>fl (1351681 / 61440)\<rfloor> = 22"
    by (rule floor_fl_between [OF _ _ d]) simp_all
  then show ?thesis
    unfolding norm360_example_elon_after
    by (simp add: termIndexFromElon_def example_elon_after_def a c)
qed

lemma floor_minute_range:
  assumes t: "\<bar>t\<bar> \<le> 8640000000000000"
  shows "\<bar>t div 60000 * 60000\<bar> \<le> (8640000000000000::int)"
proof -
  have "t div 60000 * 60000 \<le> t" by simp
  moreover have "- 144000000000 \<le> t div 60000" using t by linarith
  ultimately show ?thesis using t by linarith
qed

lemma floorToMinute_newDate:
  "\<bar>t\<bar> \<le> 8640000000000000 \<Longrightarrow> floorToMinute (newDate (Some t)) = newDate (Some (t div 60000 * 60000))"
  using floor_minute_range [of t]
  by (simp add: getTime_inject [symmetric] getTime_floorToMinute getTime_newDate)

lemma SOLAR_TERMS_nth:
  "SOLAR_TERMS ! 20 = \<lparr>name = DaXue, lon = 255\<rparr>"
  "SOLAR_TERMS ! 21 = \<lparr>name = DongZhi, lon = 270\<rparr>"
  "SOLAR_TERMS ! 22 = \<lparr>name = XiaoHan, lon = 285\<rparr>"
  by (simp_all add: SOLAR_TERMS_def)

lemma example_time: "getTime (toDate (DateInput example_date)) = Some 1736044340000"
  by (simp add: toDate_def example_date_def getTime_newDate)

lemma example_sunPosition: "sunPosition (example_oracle e) d = e"
  by (simp add: example_oracle_def)

lemma example_run:
  "getSolarTermInfo (example_astronomy example_elon_before) example_now (DateInput example_date) =
     (Inr (example_result example_elon_before), example_calls)"
proof -
  let ?A = "example_oracle example_elon_before"
  have d: "toDate (DateInput example_date) = example_date" by (simp add: toDate_def)
  have t: "getTime example_date = Some 1736044340000" by (simp add: example_date_def getTime_newDate)
  have i: "termIndexFromElon (norm360 (sunPosition ?A example_date)) = 21"
    using termIndex_before_285 by (simp add: example_sunPosition)
  have g: "\<not> js_gt (getTime (newDate (Some 1734772834000))) (Some 1736044340000)"
    by (simp add: js_gt_def getTime_newDate)
  have ix: "21 = (if js_gt (getTime (newDate (Some 1734772834000))) (Some 1736044340000)
      then (21 + 23) mod 24 else (21::int))" using g by simp
  have b1: "findSunLongitudeEvent ?A (lon (SOLAR_TERMS ! nat 21)) example_date =
     (Inr (newDate (Some 1734772834000)),
      [SearchSunLongitudeCall 270 (newDate (Some 1732588340000)) 80])"
    by (simp add: SOLAR_TERMS_nth example_find_270)
  have b2: "findSunLongitudeEvent ?A (lon (SOLAR_TERMS ! nat ((21 + 23) mod 24))) example_date =
     (Inr (newDate (Some 1733498222000)),
      [SearchSunLongitudeCall 255 (newDate (Some 1732588340000)) 80])"
    by (simp add: SOLAR_TERMS_nth example_find_255)
  have b3: "findSunLongitudeEvent ?A (lon (SOLAR_TERMS ! nat ((21 + 1) mod 24))) example_date =
     (Inr (newDate (Some 1736044367000)),
      [SearchSunLongitudeCall 285 (newDate (Some 1732588340000)) 80])"
    by (simp add: SOLAR_TERMS_nth example_find_285)
  show ?thesis
    unfolding getSolarTermInfo_eval [OF assertAstronomy_example d t i _ _ b1 ix b1 b2 b3, simplified]
    using g
    by (simp add: SOLAR_TERMS_nth floorToMinute_newDate example_sunPosition
        norm360_example_elon_before example_result_def example_calls_def)
qed

lemma example_run_corrected:
  "getSolarTermInfo (example_astronomy example_elon_after) example_now (DateInput example_date) =
     (Inr (example_result example_elon_after), example_calls_corrected)"
proof -
  let ?A = "example_oracle example_elon_after"
  have d: "toDate (DateInput example_date) = example_date" by (simp add: toDate_def)
  have t: "getTime example_date = Some 1736044340000" by (simp add: example_date_def getTime_newDate)
  have i: "termIndexFromElon (norm360 (sunPosition ?A example_date)) = 22"
    using termIndex_after_285 by (simp add: example_sunPosition)
  have g: "js_gt (getTime (newDate (Some 1736044367000))) (Some 1736044340000)"
    by (simp add: js_gt_def getTime_newDate)
  have ix: "21 = (if js_gt (getTime (newDate (Some 1736044367000))) (Some 1736044340000)
      then (22 + 23) mod 24 else (22::int))" using g by simp
  have b0: "findSunLongitudeEvent ?A (lon (SOLAR_TERMS ! nat 22)) example_date =
     (Inr (newDate (Some 1736044367000)),
      [SearchSunLongitudeCall 285 (newDate (Some 1732588340000)) 80])"
    by (simp add: SOLAR_TERMS_nth example_find_285)
  have b1: "findSunLongitudeEvent ?A (lon (SOLAR_TERMS ! nat 21)) example_date =
     (Inr (newDate (Some 1734772834000)),
      [SearchSunLongitudeCall 270 (newDate (Some 1732588340000)) 80])"
    by (simp add: SOLAR_TERMS_nth example_find_270)
  have b2: "findSunLongitudeEvent ?A (lon (SOLAR_TERMS ! nat ((21 + 23) mod 24))) example_date =
     (Inr (newDate (Some 1733498222000)),
      [SearchSunLongitudeCall 255 (newDate (Some 1732588340000)) 80])"
    by (simp add: SOLAR_TERMS_nth example_find_255)
  have b3: "findSunLongitudeEvent ?A (lon (SOLAR_TERMS ! nat ((21 + 1) mod 24))) example_date =
     (Inr (newDate (Some 1736044367000)),
      [SearchSunLongitudeCall 285 (newDate (Some 1732588340000)) 80])"
    by (simp add: SOLAR_TERMS_nth example_find_285)
  show ?thesis
    unfolding getSolarTermInfo_eval [OF assertAstronomy_example d t i _ _ b0 ix b1 b2 b3, simplified]
    using g
    by (simp add: SOLAR_TERMS_nth floorToMinute_newDate example_sunPosition
        norm360_example_elon_after example_result_def example_calls_corrected_def)
qed

lemma example_boundaries_correct:
  "boundaries_correct (example_oracle example_elon_before) (toDate (DateInput example_date)) 21"
proof -
  let ?A = "example_oracle example_elon_before"
  have d: "toDate (DateInput example_date) = example_date" by (simp add: toDate_def)
  have t: "getTime example_date = Some 1736044340000" by (simp add: example_date_def getTime_newDate)
  have p: "boundary ?A example_date (21 + 23) = Some 1733498222000"
    by (simp add: boundary_def SOLAR_TERMS_nth example_find_255 getTime_newDate)
  have c: "boundary ?A example_date 21 = Some 1734772834000"
    by (simp add: boundary_def SOLAR_TERMS_nth example_find_270 getTime_newDate)
  have n: "boundary ?A example_date (21 + 1) = Some 1736044367000"
    by (simp add: boundary_def SOLAR_TERMS_nth example_find_285 getTime_newDate)
  have i: "termIndexFromElon (norm360 (sunPosition ?A example_date)) = 21"
    using termIndex_before_285 by (simp add: example_sunPosition)
  show ?thesis
    unfolding boundaries_correct_def d t p c n i by simp
qed

lemma floored_from_floorToMinute: "getTime raw = Some t \<Longrightarrow> floored_from raw (floorToMinute raw)"
proof -
  assume t: "getTime raw = Some t"
  have "t div 60000 * 60000 \<le> t" by simp
  moreover have "t < t div 60000 * 60000 + 60000"
    using pos_mod_bound [of 60000 t] by (simp add: minus_mod_eq_div_mult [symmetric, of t 60000])
  ultimately show ?thesis using t by (simp add: floored_from_def getTime_floorToMinute)
qed

lemma whole_minute_floorToMinute: "getTime raw = Some t \<Longrightarrow> whole_minute (floorToMinute raw)"
  by (simp add: whole_minute_def getTime_floorToMinute)

lemma getSolarTermInfo_result:
  assumes "getSolarTermInfo G now inputDate = (Inr r, calls)"
  obtains A t cs0 c0 cs c1 ps c2 ns c3 idx0 idx
  where "assertAstronomy G = ok A" and "getTime (toDate inputDate) = Some t"
    and "idx0 = termIndexFromElon (norm360 (sunPosition A (toDate inputDate)))"
    and "0 \<le> idx0" and "idx0 < 24"
    and "findSunLongitudeEvent A (lon (SOLAR_TERMS ! nat idx0)) (toDate inputDate) = (Inr cs0, c0)"
    and "idx = (if js_gt (getTime cs0) (Some t) then (idx0 + 23) mod 24 else idx0)"
    and "findSunLongitudeEvent A (lon (SOLAR_TERMS ! nat idx)) (toDate inputDate) = (Inr cs, c1)"
    and "findSunLongitudeEvent A (lon (SOLAR_TERMS ! nat ((idx + 23) mod 24))) (toDate inputDate) = (Inr ps, c2)"
    and "findSunLongitudeEvent A (lon (SOLAR_TERMS ! nat ((idx + 1) mod 24))) (toDate inputDate) = (Inr ns, c3)"
    and "r = \<lparr>current = \<lparr>name = name (SOLAR_TERMS ! nat idx), lon = lon (SOLAR_TERMS ! nat idx),
                     startTime = floorToMinute cs, endTime = floorToMinute ns\<rparr>,
          previous = \<lparr>name = name (SOLAR_TERMS ! nat ((idx + 23) mod 24)),
                      lon = lon (SOLAR_TERMS ! nat ((idx + 23) mod 24)), startTime = floorToMinute ps\<rparr>,
          next = \<lparr>name = name (SOLAR_TERMS ! nat ((idx + 1) mod 24)),
                       lon = lon (SOLAR_TERMS ! nat ((idx + 1) mod 24)), startTime = floorToMinute ns\<rparr>,
          meta = \<lparr>sunEclipticLongitude = norm360 (sunPosition A (toDate inputDate)), computedAt = now\<rparr>\<rparr>"
    and "calls = SunPositionCall (toDate inputDate) # c0
           @ (if js_gt (getTime cs0) (Some t) then c1 else []) @ c2 @ c3"
proof -
  from assms obtain A t cs0 c0 cs c1 ps c2 ns c3 idx0 idx
    where h: "assertAstronomy G = ok A" "getTime (toDate inputDate) = Some t"
      "idx0 = termIndexFromElon (norm360 (sunPosition A (toDate inputDate)))"
      "0 \<le> idx0" "idx0 < 24"
      "findSunLongitudeEvent A (lon (SOLAR_TERMS ! nat idx0)) (toDate inputDate) = (Inr cs0, c0)"
      "idx = (if js_gt (getTime cs0) (Some t) then (idx0 + 23) mod 24 else idx0)"
      "findSunLongitudeEvent A (lon (SOLAR_TERMS ! nat idx)) (toDate inputDate) = (Inr cs, c1)"
      "findSunLongitudeEvent A (lon (SOLAR_TERMS ! nat ((idx + 23) mod 24))) (toDate inputDate) = (Inr ps, c2)"
      "findSunLongitudeEvent A (lon (SOLAR_TERMS ! nat ((idx + 1) mod 24))) (toDate inputDate) = (Inr ns, c3)"
    by (rule getSolarTermInfo_Inr)
  note e = getSolarTermInfo_eval [OF h(1) refl h(2) h(3) [symmetric] h(4-10), of now]
  note eq = assms [unfolded e prod.inject sum.inject]
  show ?thesis
    by (rule that [OF h eq [THEN conjunct1, symmetric] eq [THEN conjunct2, symmetric]])
qed

lemma boundary_Some:
  assumes "boundary A date i = Some t"
  shows "\<exists>d c. findSunLongitudeEvent A (lon (SOLAR_TERMS ! nat (i mod 24))) date = (Inr d, c)
    \<and> getTime d = Some t"
  using assms
  by (cases "findSunLongitudeEvent A (lon (SOLAR_TERMS ! nat (i mod 24))) date")
    (auto simp: boundary_def split: sum.splits)

lemma correct_run:
  assumes A: "assertAstronomy G = ok A" and bc: "boundaries_correct A (toDate inputDate) j"
  obtains t tp tc tn r calls where
    "getTime (toDate inputDate) = Some t"
    "tp + 60000 \<le> tc" "tc \<le> t" "t < tn" "tc + 60000 \<le> tn"
    "getSolarTermInfo G now inputDate = (Inr r, calls)"
    "name (current r) = name (SOLAR_TERMS ! nat j)"
    "getTime (startTime (current r)) = Some (tc div 60000 * 60000)"
    "getTime (endTime (current r)) = Some (tn div 60000 * 60000)"
    "getTime (startTime (previous r)) = Some (tp div 60000 * 60000)"
    "getTime (startTime (next r)) = Some (tn div 60000 * 60000)"
proof -
  define date where "date = toDate inputDate"
  define idx0 where "idx0 = termIndexFromElon (norm360 (sunPosition A date))"
  from bc obtain t tp tc tn where t: "getTime date = Some t"
    and bp: "boundary A date (j + 23) = Some tp" and bj: "boundary A date j = Some tc"
    and bn: "boundary A date (j + 1) = Some tn"
    and j: "0 \<le> j" "j < 24" and o: "tp + 60000 \<le> tc" "tc \<le> t" "t < tn" "tc + 60000 \<le> tn"
    and sel: "idx0 = j \<or> idx0 = (j + 1) mod 24"
    by (auto simp: boundaries_correct_def date_def idx0_def split: option.splits)
  from j have jm: "j mod 24 = j" by simp
  from boundary_Some [OF bp] obtain ps c2
    where b2: "findSunLongitudeEvent A (lon (SOLAR_TERMS ! nat ((j + 23) mod 24))) date = (Inr ps, c2)"
      and tp: "getTime ps = Some tp" by blast
  from boundary_Some [OF bj] obtain cs c1
    where b1: "findSunLongitudeEvent A (lon (SOLAR_TERMS ! nat j)) date = (Inr cs, c1)"
      and tc: "getTime cs = Some tc" unfolding jm by blast
  from boundary_Some [OF bn] obtain ns c3
    where b3: "findSunLongitudeEvent A (lon (SOLAR_TERMS ! nat ((j + 1) mod 24))) date = (Inr ns, c3)"
      and tn: "getTime ns = Some tn" by blast
  from sel have "\<exists>cs0 c0. 0 \<le> idx0 \<and> idx0 < 24
      \<and> findSunLongitudeEvent A (lon (SOLAR_TERMS ! nat idx0)) date = (Inr cs0, c0)
      \<and> j = (if js_gt (getTime cs0) (Some t) then (idx0 + 23) mod 24 else idx0)"
  proof
    assume "idx0 = j"
    with j b1 tc o show ?thesis by (auto simp: js_gt_def)
  next
    assume i: "idx0 = (j + 1) mod 24"
    have "((j + 1) mod 24 + 23) mod 24 = j" using j by presburger
    with i b3 tn o show ?thesis by (auto simp: js_gt_def)
  qed
  then obtain cs0 c0 where r0: "0 \<le> idx0" "idx0 < 24"
    and b0: "findSunLongitudeEvent A (lon (SOLAR_TERMS ! nat idx0)) date = (Inr cs0, c0)"
    and ix: "j = (if js_gt (getTime cs0) (Some t) then (idx0 + 23) mod 24 else idx0)" by blast
  note e = getSolarTermInfo_eval [OF A date_def [symmetric] t idx0_def [symmetric] r0 b0 ix b1 b2 b3, of now]
  show ?thesis
    by (rule that [OF t [unfolded date_def] o e]) (simp_all add: getTime_floorToMinute tp tc tn)
qed

lemma floor_minute_less: "a + 60000 \<le> b \<Longrightarrow> a div 60000 * 60000 < b div (60000::int) * 60000"
proof -
  assume "a + 60000 \<le> b"
  then have "(a + 60000) div 60000 \<le> b div 60000" by (intro zdiv_mono1) simp_all
  then show ?thesis by simp
qed

lemma with_computedAt_and_then:
  "with_computedAt c (and_then m f) = and_then m (\<lambda>x. with_computedAt c (f x))"
  by (cases m) (auto simp: with_computedAt_def and_then_def split: sum.splits prod.splits)

lemma with_computedAt_throw: "with_computedAt c (throw e) = throw e"
  by (simp add: with_computedAt_def throw_def)

lemma with_computedAt_adjacentPhase:
  "with_computedAt c (adjacentPhase A d now elon idx term cs) = adjacentPhase A d c elon idx term cs"
  unfolding adjacentPhase_def Let_def with_computedAt_and_then
  by (simp add: with_computedAt_def ok_def)

lemma SOLAR_TERMS_nth_19: "SOLAR_TERMS ! 19 = \<lparr>name = XiaoXue, lon = 240\<rparr>"
  by (simp add: SOLAR_TERMS_def)

lemma late_find:
  assumes "0 \<le> l" "l < 360"
  shows "findSunLongitudeEvent late_oracle l example_date =
     (Inr (newDate (Some 1736044367000)),
      [SearchSunLongitudeCall l (newDate (Some 1732588340000)) 80,
       SearchSunLongitudeCall l (newDate (Some 1718764340000)) 400])"
  using assms
  by (simp add: findSunLongitudeEvent_unfold late_oracle_def late_search_def
      example_date_def getTime_newDate norm360_id valid_date_AstroTime valid_date_Falsy)

lemma late_run:
  "snd (getSolarTermInfo late_astronomy example_now (DateInput example_date)) =
      [SunPositionCall example_date,
       SearchSunLongitudeCall 270 (newDate (Some 1732588340000)) 80,
       SearchSunLongitudeCall 270 (newDate (Some 1718764340000)) 400,
       SearchSunLongitudeCall 255 (newDate (Some 1732588340000)) 80,
       SearchSunLongitudeCall 255 (newDate (Some 1718764340000)) 400,
       SearchSunLongitudeCall 240 (newDate (Some 1732588340000)) 80,
       SearchSunLongitudeCall 240 (newDate (Some 1718764340000)) 400,
       SearchSunLongitudeCall 270 (newDate (Some 1732588340000)) 80,
       SearchSunLongitudeCall 270 (newDate (Some 1718764340000)) 400]"
proof -
  have a: "assertAstronomy late_astronomy = ok late_oracle"
    by (simp add: assertAstronomy_def late_astronomy_def late_oracle_def)
  have d: "toDate (DateInput example_date) = example_date" by (simp add: toDate_def)
  have t: "getTime example_date = Some 1736044340000" by (simp add: example_date_def getTime_newDate)
  have i: "termIndexFromElon (norm360 (sunPosition late_oracle example_date)) = 21"
    using termIndex_before_285 by (simp add: late_oracle_def)
  have g: "js_gt (getTime (newDate (Some 1736044367000))) (Some 1736044340000)"
    by (simp add: js_gt_def getTime_newDate)
  have ix: "20 = (if js_gt (getTime (newDate (Some 1736044367000))) (Some 1736044340000)
      then (21 + 23) mod 24 else (21::int))" using g by simp
  have b0: "findSunLongitudeEvent late_oracle (lon (SOLAR_TERMS ! nat 21)) example_date =
     (Inr (newDate (Some 1736044367000)),
      [SearchSunLongitudeCall 270 (newDate (Some 1732588340000)) 80,
       SearchSunLongitudeCall 270 (newDate (Some 1718764340000)) 400])"
    by (simp add: SOLAR_TERMS_nth late_find)
  have b1: "findSunLongitudeEvent late_oracle (lon (SOLAR_TERMS ! nat 20)) example_date =
     (Inr (newDate (Some 1736044367000)),
      [SearchSunLongitudeCall 255 (newDate (Some 1732588340000)) 80,
       SearchSunLongitudeCall 255 (newDate (Some 1718764340000)) 400])"
    by (simp add: SOLAR_TERMS_nth late_find)
  have b2: "findSunLongitudeEvent late_oracle (lon (SOLAR_TERMS ! nat ((20 + 23) mod 24))) example_date =
     (Inr (newDate (Some 1736044367000)),
      [SearchSunLongitudeCall 240 (newDate (Some 1732588340000)) 80,
       SearchSunLongitudeCall 240 (newDate (Some 1718764340000)) 400])"
    by (simp add: SOLAR_TERMS_nth_19 late_find)
  have b3: "findSunLongitudeEvent late_oracle (lon (SOLAR_TERMS ! nat ((20 + 1) mod 24))) example_date =
     (Inr (newDate (Some 1736044367000)),
      [SearchSunLongitudeCall 270 (newDate (Some 1732588340000)) 80,
       SearchSunLongitudeCall 270 (newDate (Some 1718764340000)) 400])"
    by (simp add: SOLAR_TERMS_nth late_find)
  show ?thesis
    unfolding getSolarTermInfo_eval [OF a d t i _ _ b0 ix b1 b2 b3, simplified]
    using g by simp
qed

lemma termIndex_270: "termIndexFromElon (norm360 270) = 21"
proof -
  have n: "norm360 270 = 270" by (rule norm360_id) simp_all
  have a: "fl (- 45) = - 45" using fl_dyadic [of "- 45" 0] by simp
  have b: "fl 315 = 315" using fl_dyadic [of "315" 0] by simp
  have c: "norm360 (- 45) = 315" using b by (simp add: norm360_def js_rem_small)
  have d: "fl 21 = 21" using fl_dyadic [of "21" 0] by simp
  show ?thesis by (simp add: termIndexFromElon_def n a c d)
qed

lemma boundary_find:
  assumes "example_event l = Some e" "0 \<le> l" "l < 360" "1731316834000 \<le> e" "e \<le> 1738228834000"
  shows "findSunLongitudeEvent (example_oracle 270) l boundary_date =
     (Inr (newDate (Some e)), [SearchSunLongitudeCall l (newDate (Some 1731316834000)) 80])"
  using assms
  by (simp add: findSunLongitudeEvent_unfold example_oracle_def example_search_def
      boundary_date_def getTime_newDate norm360_id valid_date_AstroTime)

lemma boundary_run:
  "getSolarTermInfo (example_astronomy 270) example_now (DateInput boundary_date) =
     (Inr boundary_result, boundary_calls)"
proof -
  let ?A = "example_oracle 270"
  have d: "toDate (DateInput boundary_date) = boundary_date" by (simp add: toDate_def)
  have t: "getTime boundary_date = Some 1734772834000" by (simp add: boundary_date_def getTime_newDate)
  have i: "termIndexFromElon (norm360 (sunPosition ?A boundary_date)) = 21"
    using termIndex_270 by (simp add: example_sunPosition)
  have g: "\<not> js_gt (getTime (newDate (Some 1734772834000))) (Some 1734772834000)"
    by (simp add: js_gt_def getTime_newDate)
  have ix: "21 = (if js_gt (getTime (newDate (Some 1734772834000))) (Some 1734772834000)
      then (21 + 23) mod 24 else (21::int))" using g by simp
  have b1: "findSunLongitudeEvent ?A (lon (SOLAR_TERMS ! nat 21)) boundary_date =
     (Inr (newDate (Some 1734772834000)),
      [SearchSunLongitudeCall 270 (newDate (Some 1731316834000)) 80])"
    by (simp add: SOLAR_TERMS_nth boundary_find example_event_def)
  have b2: "findSunLongitudeEvent ?A (lon (SOLAR_TERMS ! nat ((21 + 23) mod 24))) boundary_date =
     (Inr (newDate (Some 1733498222000)),
      [SearchSunLongitudeCall 255 (newDate (Some 1731316834000)) 80])"
    by (simp add: SOLAR_TERMS_nth boundary_find example_event_def)
  have b3: "findSunLongitudeEvent ?A (lon (SOLAR_TERMS ! nat ((21 + 1) mod 24))) boundary_date =
     (Inr (newDate (Some 1736044367000)),
      [SearchSunLongitudeCall 285 (newDate (Some 1731316834000)) 80])"
    by (simp add: SOLAR_TERMS_nth boundary_find example_event_def)
  have n: "norm360 270 = 270" by (rule norm360_id) simp_all
  show ?thesis
    unfolding getSolarTermInfo_eval [OF assertAstronomy_example d t i _ _ b1 ix b1 b2 b3, simplified]
    using g
    by (simp add: SOLAR_TERMS_nth floorToMinute_newDate example_sunPosition n
        boundary_result_def boundary_calls_def)
qed

lemma binade_upper': "binade a = 1023 \<or> a < 2 powi (binade a + 1)"
  using exp_up_upper' [of 0 a] exp_down_upper [of a "- 1"] by (auto simp: binade_def)

lemma double_grid:
  assumes "\<bar>x\<bar> < 2 powi 1024"
  shows "\<exists>n. fl x = of_int n * 2 powi (binade \<bar>x\<bar> - 52) \<and> \<bar>n\<bar> \<le> 2 ^ 53"
proof -
  define g where "g = binade \<bar>x\<bar> - 52"
  have "\<bar>x\<bar> < 2 powi (binade \<bar>x\<bar> + 1)" using assms by (rule binade_upper)
  also have "(2::real) powi (binade \<bar>x\<bar> + 1) = 2 powi 53 * 2 powi g"
    using powi_split [of "binade \<bar>x\<bar> + 1" g] by (simp add: g_def)
  finally have "\<bar>x\<bar> / 2 powi g < 2 powi 53" by (simp add: field_simps)
  then have "\<bar>x / 2 powi g\<bar> < of_int (2 ^ 53)" by simp
  then have "\<bar>round_even (x / 2 powi g)\<bar> \<le> 2 ^ 53" by (rule round_even_bound)
  then show ?thesis unfolding fl_grid g_def by blast
qed

lemma is_double_fl:
  assumes "\<bar>x\<bar> < 2 powi 1023"
  shows "is_double (fl x)"
proof -
  have "(2::real) powi 1023 \<le> 2 powi 1024" by (rule iffD2 [OF two_powi_le]) simp
  with assms have lt: "\<bar>x\<bar> < 2 powi 1024" by simp
  from double_grid [OF lt] obtain n
    where n: "fl x = of_int n * 2 powi (binade \<bar>x\<bar> - 52)" "\<bar>n\<bar> \<le> 2 ^ 53" by blast
  have "binade \<bar>x\<bar> \<noteq> 1023"
  proof
    assume b: "binade \<bar>x\<bar> = 1023"
    then have "2 powi (binade \<bar>x\<bar>) \<le> \<bar>x\<bar>" by (intro binade_lower) simp
    with assms b show False by simp
  qed
  with binade_range [of "\<bar>x\<bar>"] have "- 1074 \<le> binade \<bar>x\<bar> - 52" "binade \<bar>x\<bar> - 52 \<le> 970"
    by simp_all
  with n show ?thesis by (intro is_double_exact [of _ n "binade \<bar>x\<bar> - 52"])
qed

lemma on_grid44_diff: "on_grid44 x \<Longrightarrow> on_grid44 (x - of_int m)"
proof -
  assume "on_grid44 x"
  then obtain N where "x = of_int N / 2 ^ 44" by (auto simp: on_grid44_def)
  then have "x - of_int m = of_int (N - m * 2 ^ 44) / 2 ^ 44" by (simp add: field_simps)
  then show ?thesis unfolding on_grid44_def by blast
qed

lemma on_grid44_less:
  assumes "on_grid44 x" "x < of_int M"
  shows "x \<le> of_int M - 1 / 2 ^ 44"
proof -
  from assms(1) obtain N where N: "x = of_int N / 2 ^ 44" by (auto simp: on_grid44_def)
  with assms(2) have "real_of_int N < of_int (M * 2 ^ 44)" by (simp add: field_simps)
  then have "N < M * 2 ^ 44" by (simp only: of_int_less_iff)
  then have "N \<le> M * 2 ^ 44 - 1" by simp
  then have "real_of_int N \<le> of_int (M * 2 ^ 44 - 1)" by (simp only: of_int_le_iff)
  then show ?thesis unfolding N by (simp add: field_simps)
qed

lemma is_double_256: "is_double 256" "is_double (- 256)"
  using is_double_of_int [of 256] is_double_of_int [of "- 256"] by simp_all

lemma fl_on_grid44:
  assumes "256 \<le> \<bar>fl z\<bar>"
  shows "on_grid44 (fl z)"
proof (cases "8 \<le> binade \<bar>z\<bar>")
  case True
  define g where "g = binade \<bar>z\<bar> - 52"
  from True have g: "0 \<le> g + 44" by (simp add: g_def)
  have "(2::real) powi g = 2 powi (g + 44) * 2 powi (- 44)"
    using powi_split [of g "- 44"] by simp
  also have "(2::real) powi (g + 44) = of_int (2 ^ nat (g + 44))"
    using g by (simp add: power_int_nonneg_exp)
  finally have "fl z = of_int (round_even (z / 2 powi g) * 2 ^ nat (g + 44)) / 2 ^ 44"
    unfolding fl_grid g_def [symmetric] by (simp add: power_int_minus field_simps)
  then show ?thesis unfolding on_grid44_def by blast
next
  case False
  then have "binade \<bar>z\<bar> \<noteq> 1023" by simp
  with binade_upper' [of "\<bar>z\<bar>"] have "\<bar>z\<bar> < 2 powi (binade \<bar>z\<bar> + 1)" by simp
  also have "(2::real) powi (binade \<bar>z\<bar> + 1) \<le> 2 powi 8"
    by (rule iffD2 [OF two_powi_le]) (use False in simp)
  finally have z: "\<bar>z\<bar> < 256" by simp
  then have "fl z \<le> 256" "- 256 \<le> fl z"
    by (intro fl_le is_double_256, simp, intro fl_ge is_double_256, simp)
  with assms have "fl z = of_int 256 \<or> fl z = of_int (- 256)" by (auto simp: abs_if split: if_splits)
  then have "fl z = of_int (256 * 2 ^ 44) / 2 ^ 44 \<or> fl z = of_int (- 256 * 2 ^ 44) / 2 ^ 44"
    by simp
  then show ?thesis unfolding on_grid44_def by blast
qed

lemma is_double_on_grid44: "is_double e \<Longrightarrow> 256 \<le> \<bar>e\<bar> \<Longrightarrow> on_grid44 e"
  using fl_on_grid44 [of e] by (simp add: is_double_def)

lemma js_rem_abs: "\<bar>js_rem y 360\<bar> < 360"
  using js_rem_nonneg(1,2) [of y] js_rem_neg(1,2) [of y] by (cases "0 \<le> y") auto

lemma js_rem_on_grid44: "on_grid44 y \<Longrightarrow> on_grid44 (js_rem y 360)"
proof -
  assume g: "on_grid44 y"
  obtain k :: int where "js_rem y 360 = y - 360 * of_int k" using js_rem_int by blast
  then have "js_rem y 360 = y - of_int (360 * k)" by simp
  with on_grid44_diff [OF g, of "360 * k"] show ?thesis by simp
qed

lemma is_double_tiny: "is_double (- (1 / 2 ^ 44))"
  using is_double_dyadic [of "- 1" 44] by simp

lemma is_double_below_360: "is_double (360 - 1 / 2 ^ 44)"
proof -
  have "is_double (of_int (360 * 2 ^ 44 - 1) / 2 ^ 44)" by (rule is_double_dyadic) simp_all
  then show ?thesis by (simp add: field_simps)
qed

lemma is_double_below_24: "is_double (24 - 1 / 2 ^ 48)"
proof -
  have "is_double (of_int (24 * 2 ^ 48 - 1) / 2 ^ 48)" by (rule is_double_dyadic) simp_all
  then show ?thesis by (simp add: field_simps)
qed

lemma is_double_minus_59: "is_double (- 59)"
  using is_double_of_int [of "- 59"] by simp

lemma norm360_sub_315:
  assumes e: "is_double e"
  shows "0 \<le> norm360 (fl (e - 315)) \<and> norm360 (fl (e - 315)) \<le> 360 - 1 / 2 ^ 44"
proof -
  define y where "y = fl (e - 315)"
  define x where "x = js_rem y 360"
  have xa: "\<bar>x\<bar> < 360" unfolding x_def by (rule js_rem_abs)
  have big: "on_grid44 x" if "256 \<le> \<bar>y\<bar>"
    unfolding x_def using that by (intro js_rem_on_grid44) (simp add: y_def fl_on_grid44)
  have small: "x = y" if "\<bar>y\<bar> < 256"
    unfolding x_def using that by (intro js_rem_small) simp
  show ?thesis
  proof (cases "x < 0")
    case False
    have "x \<le> 360 - 1 / 2 ^ 44"
    proof (cases "256 \<le> \<bar>y\<bar>")
      case True
      from on_grid44_less [OF big [OF True], of 360] xa show ?thesis by simp
    next
      case False
      with small have "x = y" by simp
      with False show ?thesis by simp
    qed
    with False show ?thesis by (simp add: norm360_def Let_def x_def [symmetric] y_def [symmetric])
  next
    case True
    have neg: "x \<le> - (1 / 2 ^ 44)"
    proof (cases "256 \<le> \<bar>y\<bar>")
      case True
      from on_grid44_less [OF big [OF True], of 0] \<open>x < 0\<close> show ?thesis by simp
    next
      case False
      with small have xy: "x = y" by simp
      have z: "e - 315 < 0"
      proof (rule ccontr)
        assume "\<not> e - 315 < 0"
        then have "0 \<le> fl (e - 315)" by (intro fl_ge is_double_0) simp
        with True xy show False by (simp add: y_def)
      qed
      show ?thesis
      proof (cases "256 \<le> e")
        case True
        then have "on_grid44 e" using e by (intro is_double_on_grid44) simp_all
        then have "on_grid44 (e - of_int 315)" by (rule on_grid44_diff)
        from on_grid44_less [OF this, of 0] z have "e - 315 \<le> - (1 / 2 ^ 44)" by simp
        with is_double_tiny have "fl (e - 315) \<le> - (1 / 2 ^ 44)" by (rule fl_le)
        then show ?thesis by (simp add: xy y_def)
      next
        case False
        then have "e - 315 \<le> - 59" by simp
        with is_double_minus_59 have "fl (e - 315) \<le> - 59" by (rule fl_le)
        then show ?thesis by (simp add: xy y_def)
      qed
    qed
    then have "x + 360 \<le> 360 - 1 / 2 ^ 44" by simp
    with is_double_below_360 have hi: "fl (x + 360) \<le> 360 - 1 / 2 ^ 44" by (rule fl_le)
    have lo: "0 \<le> fl (x + 360)" using xa by (intro fl_ge is_double_0) simp
    from True hi lo show ?thesis
      by (simp add: norm360_def Let_def x_def [symmetric] y_def [symmetric])
  qed
qed

lemma termIndexFromElon_range:
  assumes "is_double e"
  shows "0 \<le> termIndexFromElon e \<and> termIndexFromElon e \<le> 23"
proof -
  define r where "r = norm360 (fl (e - 315))"
  from norm360_sub_315 [OF assms] have r: "0 \<le> r" "r \<le> 360 - 1 / 2 ^ 44" by (simp_all add: r_def)
  have "0 \<le> r / 15" using r by simp
  with is_double_0 have lo: "0 \<le> fl (r / 15)" by (rule fl_ge)
  have "r / 15 \<le> 24 - 1 / 2 ^ 48" using r by simp
  with is_double_below_24 have "fl (r / 15) \<le> 24 - 1 / 2 ^ 48" by (rule fl_le)
  then have hi: "fl (r / 15) < 24" by simp
  from lo hi have "0 \<le> \<lfloor>fl (r / 15)\<rfloor>" "\<lfloor>fl (r / 15)\<rfloor> < 24" by (simp_all add: floor_less_iff)
  then show ?thesis by (simp add: termIndexFromElon_def Let_def r_def)
qed

lemma is_double_js_rem:
  assumes "is_double d"
  shows "is_double (js_rem d 360)"
proof (cases "\<bar>d\<bar> < 256")
  case True
  then have "js_rem d 360 = d" by (intro js_rem_small) simp
  with assms show ?thesis by simp
next
  case False
  then have "on_grid44 d" using assms by (intro is_double_on_grid44) simp_all
  then have "on_grid44 (js_rem d 360)" by (rule js_rem_on_grid44)
  then obtain N :: int where N: "js_rem d 360 = of_int N / 2 ^ 44" by (auto simp: on_grid44_def)
  from js_rem_abs [of d] have "\<bar>real_of_int N\<bar> < of_int (360 * 2 ^ 44)"
    unfolding N by (simp add: field_simps)
  then have "\<bar>N\<bar> < 360 * 2 ^ 44" by (simp only: of_int_abs [symmetric] of_int_less_iff)
  then have "\<bar>N\<bar> \<le> 2 ^ 53" by simp
  then show ?thesis unfolding N by (intro is_double_dyadic) simp_all
qed

lemma is_double_norm360:
  assumes "is_double d"
  shows "is_double (norm360 d)"
proof (cases "js_rem d 360 < 0")
  case True
  have "\<bar>js_rem d 360 + 360\<bar> < 360" using js_rem_abs [of d] True by simp
  also have "(360::real) < 2 powi 1023" by simp
  finally have "is_double (fl (js_rem d 360 + 360))" by (rule is_double_fl)
  with True show ?thesis by (simp add: norm360_def Let_def)
next
  case False
  with is_double_js_rem [OF assms] show ?thesis by (simp add: norm360_def Let_def)
qed

lemma termIndex_of_oracle:
  "is_double e \<Longrightarrow> 0 \<le> termIndexFromElon (norm360 e) \<and> termIndexFromElon (norm360 e) < 24"
  using termIndexFromElon_range [OF is_double_norm360, of e] by simp

lemma and_then_Inl:
  "and_then m f = (Inl e, c) \<longleftrightarrow>
     m = (Inl e, c) \<or> (\<exists>x c1 c2. m = (Inr x, c1) \<and> f x = (Inl e, c2) \<and> c = c1 @ c2)"
  by (cases m) (auto simp: and_then_def split: sum.splits prod.splits)

lemma findSunLongitudeEvent_Inl:
  "findSunLongitudeEvent A l d = (Inl e, c) \<Longrightarrow> e = FailedToFindSunLongitudeEvent l"
  by (auto simp: findSunLongitudeEvent_unfold Let_def split: option.splits)

lemma term_at_mod: "term_at (i mod 24) = ok (SOLAR_TERMS ! nat (i mod 24))"
  by (rule term_at_ok) simp_all

lemma adjacentPhase_Inl:
  "adjacentPhase A d now elon idx term cs = (Inl e, c) \<Longrightarrow> \<exists>l. e = FailedToFindSunLongitudeEvent l"
  unfolding adjacentPhase_def Let_def term_at_mod and_then_ok
  by (auto simp: and_then_Inl ok_def dest: findSunLongitudeEvent_Inl)

lemma correctionPhase_Inl:
  "correctionPhase A d i0 t0 cs0 = (Inl e, c) \<Longrightarrow> \<exists>l. e = FailedToFindSunLongitudeEvent l"
  unfolding correctionPhase_def Let_def term_at_mod and_then_ok
  by (auto simp: and_then_Inl ok_def dest: findSunLongitudeEvent_Inl split: if_splits)

lemma getSolarTermInfo_Inl:
  assumes A: "assertAstronomy G = ok A"
    and t: "getTime (toDate inputDate) = Some t"
    and e: "is_double (sunPosition A (toDate inputDate))"
    and r: "getSolarTermInfo G now inputDate = (Inl err, c)"
  shows "\<exists>l. err = FailedToFindSunLongitudeEvent l"
proof -
  note i = termIndex_of_oracle [OF e]
  have ta: "term_at (termIndexFromElon (norm360 (sunPosition A (toDate inputDate))))
      = ok (SOLAR_TERMS ! nat (termIndexFromElon (norm360 (sunPosition A (toDate inputDate)))))"
    using i by (intro term_at_ok) simp_all
  have nt: "getTime (toDate inputDate) \<noteq> None" using t by simp
  have step: "and_then (callSunPosition A d) f = (case f (sunPosition A d) of (r, c') \<Rightarrow> (r, SunPositionCall d # c'))"
    for d and f :: "real \<Rightarrow> solar_term_info outcome"
    by (simp add: and_then_def callSunPosition_def)
  from r show ?thesis
    unfolding getSolarTermInfo_phases A and_then_ok
    by (simp only: nt if_False step ta and_then_ok)
      (auto simp: and_then_Inl split: prod.splits
        dest: findSunLongitudeEvent_Inl correctionPhase_Inl adjacentPhase_Inl)
qed

lemma boundary_of_find:
  "findSunLongitudeEvent A (lon (SOLAR_TERMS ! nat (i mod 24))) d = (Inr x, c) \<Longrightarrow>
   \<exists>t. boundary A d i = Some t \<and> getTime x = Some t"
  using findSunLongitudeEvent_valid [of A "lon (SOLAR_TERMS ! nat (i mod 24))" d x c]
  by (auto simp: boundary_def)

lemma is_double_example_elon_before: "is_double example_elon_before"
proof -
  have "is_double (of_int 1167359 / 2 ^ 12)" by (rule is_double_dyadic) simp_all
  then show ?thesis by (simp add: example_elon_before_def)
qed

lemma is_double_517_2: "is_double (517 / 2)"
  using is_double_dyadic [of 517 1] by simp

lemma termIndex_258: "termIndexFromElon (norm360 (517 / 2)) = 20"
proof -
  have n: "norm360 (517 / 2) = 517 / 2" by (rule norm360_id) simp_all
  have a: "fl (- (113 / 2)) = - (113 / 2)" using fl_dyadic [of "- 113" 1] by simp
  have b: "fl (607 / 2) = 607 / 2" using fl_dyadic [of "607" 1] by simp
  have c: "norm360 (- (113 / 2)) = 607 / 2" using b by (simp add: norm360_def js_rem_small)
  have "is_double (of_int 41 / 2 ^ 1)" by (rule is_double_dyadic) simp_all
  then have d: "is_double (41 / 2)" by simp
  have "\<lfloor>fl (607 / 30)\<rfloor> = 20"
    by (rule floor_fl_between [OF _ _ d]) simp_all
  then show ?thesis by (simp add: termIndexFromElon_def n a c)
qed

section \<open>The claims\<close>

text \<open>
  C6, as amended. Every call of \<open>getSolarTermInfo\<close> makes at most nine oracle calls: one
  longitude read and at most two searches (the 80-day window and the 400-day window) for
  each of at most four boundary searches: the current term, the current term again
  after the correction of the index, the previous term and the next term.
\<close>

theorem oracle_calls_bound:
  "length (snd (getSolarTermInfo G now inputDate)) \<le> 9"
  using calls_getSolarTermInfo [of G now inputDate] by simp

text \<open>
  The bound of six calls fails: with the oracle \<open>late_astronomy\<close> the first boundary lies
  after the query instant, the index is corrected, every search needs both windows, and
  nine calls are made.
\<close>

theorem oracle_calls_bound_counterexample:
  "\<not> length (snd (getSolarTermInfo late_astronomy example_now (DateInput example_date))) \<le> 6"
  by (simp add: late_run)

text \<open>
  C7. For an input whose time value is NaN, \<open>getSolarTermInfo\<close> makes no oracle call, and,
  the oracle being present (\<open>assertAstronomy\<close> passes), it throws the invalid-input error.
\<close>

theorem invalid_input_rejected:
  assumes "getTime (toDate inputDate) = None"
  shows "snd (getSolarTermInfo G now inputDate) = []
    \<and> (assertAstronomy G = ok A \<longrightarrow> getSolarTermInfo G now inputDate = (Inl InvalidInputDate, []))"
proof -
  have "snd (assertAstronomy G) = []"
    by (simp add: assertAstronomy_def ok_def throw_def split: option.split)
  then show ?thesis
    using assms
    by (cases "assertAstronomy G")
      (auto simp: getSolarTermInfo_phases and_then_def throw_def ok_def split: sum.splits)
qed

theorem invalid_input_rejected_witness:
  "getTime (toDate (CoercedInput (newDate None))) = None
   \<and> getSolarTermInfo (example_astronomy 270) example_now (CoercedInput (newDate None))
       = (Inl InvalidInputDate, [])"
  using invalid_input_rejected [of "CoercedInput (newDate None)" "example_astronomy 270" example_now
      "example_oracle 270"] assertAstronomy_example [of 270]
  by (simp add: toDate_def getTime_newDate)

text \<open>
  C10. Two calls of \<open>getSolarTermInfo\<close> with the same oracle and the same input, made at the
  wall clock readings \<open>now\<close> and \<open>now'\<close>, yield the same error or the same oracle calls and
  the same result but for the field \<^verbatim>\<open>meta.computedAt\<close>: the second outcome is the first with
  \<^verbatim>\<open>meta.computedAt\<close> set to \<open>now'\<close>.
\<close>

theorem deterministic_modulo_clock:
  "getSolarTermInfo G now' inputDate = with_computedAt now' (getSolarTermInfo G now inputDate)"
  unfolding getSolarTermInfo_phases with_computedAt_and_then
  by (simp add: with_computedAt_and_then with_computedAt_throw with_computedAt_adjacentPhase
      if_distrib [of "with_computedAt now'"] prod.case_distrib [of "with_computedAt now'"]
      cong: if_cong)

text \<open>
  C1, as amended. When the oracle returns correct boundary instants around the query
  instant \<open>t\<close>, those of term \<open>j\<close>, \<open>getSolarTermInfo\<close> returns a result whose current term is
  \<open>j\<close>, with \<open>current.startTime \<le> t\<close> and \<open>t < current.endTime + 1 minute\<close>: the end of the
  window is the next boundary floored to the minute, so the query instant may lie in the
  last, partial minute before that boundary.
\<close>

theorem current_window_contains_query:
  assumes "assertAstronomy G = ok A" and "boundaries_correct A (toDate inputDate) j"
  shows "\<exists>r calls t s e. getSolarTermInfo G now inputDate = (Inr r, calls)
    \<and> name (current r) = name (SOLAR_TERMS ! nat j)
    \<and> getTime (toDate inputDate) = Some t
    \<and> getTime (startTime (current r)) = Some s \<and> getTime (endTime (current r)) = Some e
    \<and> s \<le> t \<and> t < e + 60000"
proof -
  from assms obtain t tp tc tn r calls where
    h: "getTime (toDate inputDate) = Some t"
    "tp + 60000 \<le> tc" "tc \<le> t" "t < tn" "tc + 60000 \<le> tn"
    "getSolarTermInfo G now inputDate = (Inr r, calls)"
    "name (current r) = name (SOLAR_TERMS ! nat j)"
    "getTime (startTime (current r)) = Some (tc div 60000 * 60000)"
    "getTime (endTime (current r)) = Some (tn div 60000 * 60000)"
    by (rule correct_run [where now = now])
  have "tc div 60000 * 60000 \<le> tc" by simp
  with h have s: "tc div 60000 * 60000 \<le> t" by linarith
  have "tn < tn div 60000 * 60000 + 60000"
    using pos_mod_bound [of 60000 tn] by (simp add: minus_mod_eq_div_mult [symmetric, of tn 60000])
  with h have e: "t < tn div 60000 * 60000 + 60000" by linarith
  from h(6,7,1,8,9) s e show ?thesis by blast
qed

text \<open>
  The theorem at the example: the query instant 2025-01-05 02:32:20 lies in the term DongZhi,
  whose window, floored, is 2024-12-21 09:20 to 2025-01-05 02:32.
\<close>

theorem current_window_contains_query_witness:
  "assertAstronomy (example_astronomy example_elon_before) = ok (example_oracle example_elon_before)
   \<and> boundaries_correct (example_oracle example_elon_before) (toDate (DateInput example_date)) 21
   \<and> (\<exists>r calls t s e.
        getSolarTermInfo (example_astronomy example_elon_before) example_now (DateInput example_date)
          = (Inr r, calls)
        \<and> name (current r) = DongZhi
        \<and> getTime (toDate (DateInput example_date)) = Some t
        \<and> getTime (startTime (current r)) = Some s \<and> getTime (endTime (current r)) = Some e
        \<and> s \<le> t \<and> t < e + 60000)"
  using current_window_contains_query [OF assertAstronomy_example example_boundaries_correct,
      of example_now]
  by (simp add: assertAstronomy_example example_boundaries_correct SOLAR_TERMS_nth)

text \<open>
  The claim as stated fails at the same example, where the oracle's boundaries are correct:
  the next boundary is 02:32:47, the end of the window is its floor 02:32:00, and the query
  instant 02:32:20 is not before it.
\<close>

theorem current_window_contains_query_counterexample:
  "assertAstronomy (example_astronomy example_elon_before) = ok (example_oracle example_elon_before)
   \<and> boundaries_correct (example_oracle example_elon_before) (toDate (DateInput example_date)) 21
   \<and> fst (getSolarTermInfo (example_astronomy example_elon_before) example_now (DateInput example_date))
       = Inr (example_result example_elon_before)
   \<and> getTime (toDate (DateInput example_date)) = Some 1736044340000
   \<and> getTime (endTime (current (example_result example_elon_before))) = Some 1736044320000
   \<and> \<not> js_gt (getTime (endTime (current (example_result example_elon_before))))
          (getTime (toDate (DateInput example_date)))"
  by (simp add: assertAstronomy_example example_boundaries_correct example_run example_time
      example_result_def getTime_newDate js_gt_def)

text \<open>
  C2, as amended. In every successful result the four term instants
  (\<^verbatim>\<open>current.startTime\<close>, \<^verbatim>\<open>current.endTime\<close>, \<^verbatim>\<open>previous.startTime\<close>, \<^verbatim>\<open>next.startTime\<close>) are
  whole minutes, each the floor to the minute of the boundary instant that the search for
  its longitude returns; \<^verbatim>\<open>meta.computedAt\<close> is the wall clock reading as it is, not
  truncated.
\<close>

theorem time_fields_floored:
  assumes "getSolarTermInfo G now inputDate = (Inr r, calls)"
  shows "whole_minute (startTime (current r)) \<and> whole_minute (endTime (current r))
    \<and> whole_minute (startTime (previous r)) \<and> whole_minute (startTime (next r))
    \<and> computedAt (meta r) = now
    \<and> (\<exists>A cs ps ns.
          assertAstronomy G = ok A
          \<and> fst (findSunLongitudeEvent A (lon (current r)) (toDate inputDate)) = Inr cs
          \<and> fst (findSunLongitudeEvent A (lon (previous r)) (toDate inputDate)) = Inr ps
          \<and> fst (findSunLongitudeEvent A (lon (next r)) (toDate inputDate)) = Inr ns
          \<and> floored_from cs (startTime (current r)) \<and> floored_from ns (endTime (current r))
          \<and> floored_from ps (startTime (previous r)) \<and> floored_from ns (startTime (next r)))"
proof -
  from assms obtain A t cs0 c0 cs c1 ps c2 ns c3 idx0 idx
    where A: "assertAstronomy G = ok A"
      and b1: "findSunLongitudeEvent A (lon (SOLAR_TERMS ! nat idx)) (toDate inputDate) = (Inr cs, c1)"
      and b2: "findSunLongitudeEvent A (lon (SOLAR_TERMS ! nat ((idx + 23) mod 24))) (toDate inputDate) = (Inr ps, c2)"
      and b3: "findSunLongitudeEvent A (lon (SOLAR_TERMS ! nat ((idx + 1) mod 24))) (toDate inputDate) = (Inr ns, c3)"
      and r: "r = \<lparr>current = \<lparr>name = name (SOLAR_TERMS ! nat idx), lon = lon (SOLAR_TERMS ! nat idx),
                     startTime = floorToMinute cs, endTime = floorToMinute ns\<rparr>,
          previous = \<lparr>name = name (SOLAR_TERMS ! nat ((idx + 23) mod 24)),
                      lon = lon (SOLAR_TERMS ! nat ((idx + 23) mod 24)), startTime = floorToMinute ps\<rparr>,
          next = \<lparr>name = name (SOLAR_TERMS ! nat ((idx + 1) mod 24)),
                       lon = lon (SOLAR_TERMS ! nat ((idx + 1) mod 24)), startTime = floorToMinute ns\<rparr>,
          meta = \<lparr>sunEclipticLongitude = norm360 (sunPosition A (toDate inputDate)), computedAt = now\<rparr>\<rparr>"
    by (rule getSolarTermInfo_result)
  from findSunLongitudeEvent_valid [OF b1] obtain tc where tc: "getTime cs = Some tc" by blast
  from findSunLongitudeEvent_valid [OF b2] obtain tp where tp: "getTime ps = Some tp" by blast
  from findSunLongitudeEvent_valid [OF b3] obtain tn where tn: "getTime ns = Some tn" by blast
  note w = whole_minute_floorToMinute [OF tc] whole_minute_floorToMinute [OF tp]
    whole_minute_floorToMinute [OF tn]
  note f = floored_from_floorToMinute [OF tc] floored_from_floorToMinute [OF tp]
    floored_from_floorToMinute [OF tn]
  have "\<exists>A cs ps ns.
          assertAstronomy G = ok A
          \<and> fst (findSunLongitudeEvent A (lon (current r)) (toDate inputDate)) = Inr cs
          \<and> fst (findSunLongitudeEvent A (lon (previous r)) (toDate inputDate)) = Inr ps
          \<and> fst (findSunLongitudeEvent A (lon (next r)) (toDate inputDate)) = Inr ns
          \<and> floored_from cs (startTime (current r)) \<and> floored_from ns (endTime (current r))
          \<and> floored_from ps (startTime (previous r)) \<and> floored_from ns (startTime (next r))"
    by (rule exI [of _ A], rule exI [of _ cs], rule exI [of _ ps], rule exI [of _ ns])
      (simp add: r A b1 b2 b3 f)
  with w show ?thesis by (simp add: r)
qed

text \<open>The theorem at the example.\<close>

theorem time_fields_floored_witness:
  "getSolarTermInfo (example_astronomy example_elon_before) example_now (DateInput example_date)
     = (Inr (example_result example_elon_before), example_calls)
   \<and> whole_minute (startTime (current (example_result example_elon_before)))
   \<and> whole_minute (endTime (current (example_result example_elon_before)))
   \<and> whole_minute (startTime (previous (example_result example_elon_before)))
   \<and> whole_minute (startTime (next (example_result example_elon_before)))
   \<and> computedAt (meta (example_result example_elon_before)) = example_now"
  using time_fields_floored [OF example_run] example_run by simp

text \<open>
  The claim as stated fails at the example: the wall clock reads 02:32:25.678 and
  \<^verbatim>\<open>meta.computedAt\<close> is that instant, seconds and milliseconds included.
\<close>

theorem time_fields_floored_counterexample:
  "fst (getSolarTermInfo (example_astronomy example_elon_before) example_now (DateInput example_date))
     = Inr (example_result example_elon_before)
   \<and> getTime (computedAt (meta (example_result example_elon_before))) = Some 1736044345678
   \<and> \<not> whole_minute (computedAt (meta (example_result example_elon_before)))"
proof -
  have "getTime (computedAt (meta (example_result example_elon_before))) = Some 1736044345678"
    by (simp add: example_result_def example_now_def getTime_newDate)
  then show ?thesis by (simp add: example_run whole_minute_def)
qed

text \<open>
  C9. In every successful result \<^verbatim>\<open>current.endTime\<close> equals \<^verbatim>\<open>next.startTime\<close>, and, when
  the oracle returns correct boundary instants around the query instant,
  \<^verbatim>\<open>previous.startTime < current.startTime < next.startTime\<close>.
\<close>

theorem shared_boundary_and_order:
  assumes "getSolarTermInfo G now inputDate = (Inr r, calls)"
  shows "endTime (current r) = startTime (next r)
    \<and> (\<forall>A j. assertAstronomy G = ok A \<and> boundaries_correct A (toDate inputDate) j \<longrightarrow>
         (\<exists>p c n. getTime (startTime (previous r)) = Some p
            \<and> getTime (startTime (current r)) = Some c
            \<and> getTime (startTime (next r)) = Some n \<and> p < c \<and> c < n))"
proof (intro conjI allI impI)
  from assms show "endTime (current r) = startTime (next r)"
    by (rule getSolarTermInfo_result) simp
next
  fix A j
  assume "assertAstronomy G = ok A \<and> boundaries_correct A (toDate inputDate) j"
  then obtain t tp tc tn r' calls' where
    h: "tp + 60000 \<le> tc" "tc + 60000 \<le> tn"
    "getSolarTermInfo G now inputDate = (Inr r', calls')"
    "getTime (startTime (previous r')) = Some (tp div 60000 * 60000)"
    "getTime (startTime (current r')) = Some (tc div 60000 * 60000)"
    "getTime (startTime (next r')) = Some (tn div 60000 * 60000)"
    by (elim conjE correct_run [where now = now])
  from assms h(3) have "r' = r" by simp
  with h floor_minute_less [OF h(1)] floor_minute_less [OF h(2)]
  show "\<exists>p c n. getTime (startTime (previous r)) = Some p
            \<and> getTime (startTime (current r)) = Some c
            \<and> getTime (startTime (next r)) = Some n \<and> p < c \<and> c < n"
    by simp
qed

text \<open>The theorem at the example.\<close>

theorem shared_boundary_and_order_witness:
  "getSolarTermInfo (example_astronomy example_elon_before) example_now (DateInput example_date)
     = (Inr (example_result example_elon_before), example_calls)
   \<and> assertAstronomy (example_astronomy example_elon_before) = ok (example_oracle example_elon_before)
   \<and> boundaries_correct (example_oracle example_elon_before) (toDate (DateInput example_date)) 21
   \<and> endTime (current (example_result example_elon_before))
       = startTime (next (example_result example_elon_before))
   \<and> (\<exists>p c n. getTime (startTime (previous (example_result example_elon_before))) = Some p
        \<and> getTime (startTime (current (example_result example_elon_before))) = Some c
        \<and> getTime (startTime (next (example_result example_elon_before))) = Some n
        \<and> p < c \<and> c < n)"
  using shared_boundary_and_order [OF example_run] example_run assertAstronomy_example
    example_boundaries_correct
  by blast

text \<open>
  C3. In a successful call, let \<open>idx0\<close> be the index derived from the longitude and \<open>tb\<close> the
  boundary instant found for it. The current term is \<open>(idx0 + 23) mod 24\<close> when \<open>t < tb\<close>
  (strictly) and \<open>idx0\<close> otherwise, in particular when \<open>tb = t\<close>; in the first case the
  boundary is searched once more, for the corrected index, and whatever that search
  returns the index is not corrected again: the oracle calls are the longitude read, the
  search for \<open>idx0\<close>, the search for the corrected index if \<open>t < tb\<close>, and the searches for the
  previous and the next term.
\<close>

theorem self_correction_once:
  assumes run: "getSolarTermInfo G now inputDate = (Inr r, calls)"
    and A: "assertAstronomy G = ok A"
    and t: "getTime (toDate inputDate) = Some t"
    and i0: "termIndexFromElon (norm360 (sunPosition A (toDate inputDate))) = idx0"
    and b0: "findSunLongitudeEvent A (lon (SOLAR_TERMS ! nat idx0)) (toDate inputDate) = (Inr cs0, c0)"
    and tb: "getTime cs0 = Some tb"
  shows "\<exists>idx cs c1 ps c2 ns c3.
      idx = (if t < tb then (idx0 + 23) mod 24 else idx0)
      \<and> name (current r) = name (SOLAR_TERMS ! nat idx)
      \<and> lon (current r) = lon (SOLAR_TERMS ! nat idx)
      \<and> findSunLongitudeEvent A (lon (SOLAR_TERMS ! nat idx)) (toDate inputDate) = (Inr cs, c1)
      \<and> startTime (current r) = floorToMinute cs
      \<and> findSunLongitudeEvent A (lon (SOLAR_TERMS ! nat ((idx + 23) mod 24))) (toDate inputDate) = (Inr ps, c2)
      \<and> findSunLongitudeEvent A (lon (SOLAR_TERMS ! nat ((idx + 1) mod 24))) (toDate inputDate) = (Inr ns, c3)
      \<and> calls = SunPositionCall (toDate inputDate) # c0 @ (if t < tb then c1 else []) @ c2 @ c3"
proof -
  from run obtain A' t' cs0' c0' cs c1 ps c2 ns c3 idx0' idx
    where h: "assertAstronomy G = ok A'" "getTime (toDate inputDate) = Some t'"
      "idx0' = termIndexFromElon (norm360 (sunPosition A' (toDate inputDate)))"
      "findSunLongitudeEvent A' (lon (SOLAR_TERMS ! nat idx0')) (toDate inputDate) = (Inr cs0', c0')"
      "idx = (if js_gt (getTime cs0') (Some t') then (idx0' + 23) mod 24 else idx0')"
      "findSunLongitudeEvent A' (lon (SOLAR_TERMS ! nat idx)) (toDate inputDate) = (Inr cs, c1)"
      "findSunLongitudeEvent A' (lon (SOLAR_TERMS ! nat ((idx + 23) mod 24))) (toDate inputDate) = (Inr ps, c2)"
      "findSunLongitudeEvent A' (lon (SOLAR_TERMS ! nat ((idx + 1) mod 24))) (toDate inputDate) = (Inr ns, c3)"
      and r: "r = \<lparr>current = \<lparr>name = name (SOLAR_TERMS ! nat idx), lon = lon (SOLAR_TERMS ! nat idx),
                     startTime = floorToMinute cs, endTime = floorToMinute ns\<rparr>,
          previous = \<lparr>name = name (SOLAR_TERMS ! nat ((idx + 23) mod 24)),
                      lon = lon (SOLAR_TERMS ! nat ((idx + 23) mod 24)), startTime = floorToMinute ps\<rparr>,
          next = \<lparr>name = name (SOLAR_TERMS ! nat ((idx + 1) mod 24)),
                       lon = lon (SOLAR_TERMS ! nat ((idx + 1) mod 24)), startTime = floorToMinute ns\<rparr>,
          meta = \<lparr>sunEclipticLongitude = norm360 (sunPosition A' (toDate inputDate)), computedAt = now\<rparr>\<rparr>"
      and c: "calls = SunPositionCall (toDate inputDate) # c0'
           @ (if js_gt (getTime cs0') (Some t') then c1 else []) @ c2 @ c3"
    by (rule getSolarTermInfo_result)
  from h(1) A have A': "A' = A" by (simp add: ok_def)
  from h(2) t have t': "t' = t" by simp
  from h(3) i0 have i': "idx0' = idx0" by (simp add: A')
  from h(4) b0 have b': "cs0' = cs0" "c0' = c0" by (simp_all add: A' i')
  have g: "js_gt (getTime cs0) (Some t) \<longleftrightarrow> t < tb" by (simp add: js_gt_def tb)
  have "idx = (if t < tb then (idx0 + 23) mod 24 else idx0)
      \<and> name (current r) = name (SOLAR_TERMS ! nat idx)
      \<and> lon (current r) = lon (SOLAR_TERMS ! nat idx)
      \<and> findSunLongitudeEvent A (lon (SOLAR_TERMS ! nat idx)) (toDate inputDate) = (Inr cs, c1)
      \<and> startTime (current r) = floorToMinute cs
      \<and> findSunLongitudeEvent A (lon (SOLAR_TERMS ! nat ((idx + 23) mod 24))) (toDate inputDate) = (Inr ps, c2)
      \<and> findSunLongitudeEvent A (lon (SOLAR_TERMS ! nat ((idx + 1) mod 24))) (toDate inputDate) = (Inr ns, c3)
      \<and> calls = SunPositionCall (toDate inputDate) # c0 @ (if t < tb then c1 else []) @ c2 @ c3"
    using h(5-8) c unfolding A' t' i' b' g by (simp add: r)
  then show ?thesis by blast
qed

text \<open>
  The theorem at two examples: the longitude reading just above 285 with the boundary of
  XiaoHan 27 seconds after the query (the index 22 is corrected to 21, five oracle calls),
  and the query exactly at the boundary of DongZhi (no correction, four oracle calls).
\<close>

theorem self_correction_once_witness:
  "getSolarTermInfo (example_astronomy example_elon_after) example_now (DateInput example_date)
     = (Inr (example_result example_elon_after), example_calls_corrected)
   \<and> termIndexFromElon (norm360 (sunPosition (example_oracle example_elon_after)
        (toDate (DateInput example_date)))) = 22
   \<and> fst (findSunLongitudeEvent (example_oracle example_elon_after) (lon (SOLAR_TERMS ! nat 22))
        (toDate (DateInput example_date))) = Inr (newDate (Some 1736044367000))
   \<and> getTime (toDate (DateInput example_date)) = Some 1736044340000
   \<and> name (current (example_result example_elon_after)) = name (SOLAR_TERMS ! nat ((22 + 23) mod 24))
   \<and> length example_calls_corrected = 5
   \<and> getSolarTermInfo (example_astronomy 270) example_now (DateInput boundary_date)
     = (Inr boundary_result, boundary_calls)
   \<and> termIndexFromElon (norm360 (sunPosition (example_oracle 270)
        (toDate (DateInput boundary_date)))) = 21
   \<and> fst (findSunLongitudeEvent (example_oracle 270) (lon (SOLAR_TERMS ! nat 21))
        (toDate (DateInput boundary_date))) = Inr (newDate (Some 1734772834000))
   \<and> getTime (toDate (DateInput boundary_date)) = Some 1734772834000
   \<and> name (current boundary_result) = name (SOLAR_TERMS ! nat 21)
   \<and> length boundary_calls = 4"
proof -
  have i1: "termIndexFromElon (norm360 (sunPosition (example_oracle example_elon_after)
        (toDate (DateInput example_date)))) = 22"
    using termIndex_after_285 by (simp add: example_sunPosition)
  have b1: "findSunLongitudeEvent (example_oracle example_elon_after) (lon (SOLAR_TERMS ! nat 22))
        (toDate (DateInput example_date)) = (Inr (newDate (Some 1736044367000)),
      [SearchSunLongitudeCall 285 (newDate (Some 1732588340000)) 80])"
    by (simp add: SOLAR_TERMS_nth example_find_285 toDate_def)
  have t1: "getTime (newDate (Some 1736044367000)) = Some 1736044367000"
    by (simp add: getTime_newDate)
  have i2: "termIndexFromElon (norm360 (sunPosition (example_oracle 270)
        (toDate (DateInput boundary_date)))) = 21"
    using termIndex_270 by (simp add: example_sunPosition)
  have b2: "findSunLongitudeEvent (example_oracle 270) (lon (SOLAR_TERMS ! nat 21))
        (toDate (DateInput boundary_date)) = (Inr (newDate (Some 1734772834000)),
      [SearchSunLongitudeCall 270 (newDate (Some 1731316834000)) 80])"
    by (simp add: SOLAR_TERMS_nth boundary_find example_event_def toDate_def)
  have t2: "getTime (newDate (Some 1734772834000)) = Some 1734772834000"
    by (simp add: getTime_newDate)
  have bt: "getTime (toDate (DateInput boundary_date)) = Some 1734772834000"
    by (simp add: toDate_def boundary_date_def getTime_newDate)
  from self_correction_once [OF example_run_corrected assertAstronomy_example example_time i1 b1 t1]
  have w1: "name (current (example_result example_elon_after)) = name (SOLAR_TERMS ! nat ((22 + 23) mod 24))"
    by auto
  from self_correction_once [OF boundary_run assertAstronomy_example bt i2 b2 t2]
  have w2: "name (current boundary_result) = name (SOLAR_TERMS ! nat 21)"
    by auto
  have f1: "fst (findSunLongitudeEvent (example_oracle example_elon_after) (lon (SOLAR_TERMS ! nat 22))
        (toDate (DateInput example_date))) = Inr (newDate (Some 1736044367000))"
    by (simp only: b1 fst_conv)
  have f2: "fst (findSunLongitudeEvent (example_oracle 270) (lon (SOLAR_TERMS ! nat 21))
        (toDate (DateInput boundary_date))) = Inr (newDate (Some 1734772834000))"
    by (simp only: b2 fst_conv)
  have l1: "length example_calls_corrected = 5" by (simp add: example_calls_corrected_def)
  have l2: "length boundary_calls = 4" by (simp add: boundary_calls_def)
  show ?thesis
    by (intro conjI example_run_corrected i1 f1 example_time w1 l1 boundary_run i2 f2 bt w2 l2)
qed

text \<open>
  C4, as amended. For a center date with time value \<open>c\<close>, \<open>findSunLongitudeEvent\<close> first
  calls the search with the window start \<^verbatim>\<open>new Date(c - 40 days)\<close> and 80 days; exactly when
  that yields no valid date it calls the search once more, with \<^verbatim>\<open>new Date(c - 200 days)\<close>
  and 400 days; when that yields no valid date either it throws the error that names the
  target longitude. When \<open>c - 200 days\<close> is an instant a \<^verbatim>\<open>Date\<close> can hold, that is when
  \<open>-8640000000000000 + 200 days \<le> c\<close>, the window starts are the instants \<open>c - 40 days\<close> and
  \<open>c - 200 days\<close>, and the calls are as the specification words them; otherwise the start
  of the second window is an invalid date.
\<close>

theorem findSunLongitudeEvent_windows:
  assumes "getTime centerDate = Some c"
  shows "findSunLongitudeEvent A targetLon centerDate =
     (let start1 = newDate (Some (c - 40 * 86400000));
          start2 = newDate (Some (c - 200 * 86400000));
          call1 = SearchSunLongitudeCall (norm360 targetLon) start1 80;
          call2 = SearchSunLongitudeCall (norm360 targetLon) start2 400
      in case valid_date (toDateFromAstroTime (searchSunLongitude A (norm360 targetLon) start1 80)) of
           Some d \<Rightarrow> (Inr d, [call1])
         | None \<Rightarrow>
             (case valid_date (toDateFromAstroTime (searchSunLongitude A (norm360 targetLon) start2 400)) of
                Some d \<Rightarrow> (Inr d, [call1, call2])
              | None \<Rightarrow> (Inl (FailedToFindSunLongitudeEvent targetLon), [call1, call2])))
     \<and> (if - 8640000000000000 + 200 * 86400000 \<le> c
        then getTime (newDate (Some (c - 40 * 86400000))) = Some (c - 40 * 86400000)
          \<and> getTime (newDate (Some (c - 200 * 86400000))) = Some (c - 200 * 86400000)
          \<and> windows_as_specified c (snd (findSunLongitudeEvent A targetLon centerDate))
        else getTime (newDate (Some (c - 200 * 86400000))) = None)"
proof -
  from assms have "\<bar>c\<bar> \<le> 8640000000000000" by (rule getTime_range)
  then show ?thesis using assms
    by (auto simp: findSunLongitudeEvent_unfold Let_def getTime_newDate abs_le_iff
        windows_as_specified_def MS_PER_DAY_def split: option.splits)
qed

text \<open>
  The theorem at the example date: a search that succeeds in the first window, and one that
  needs the second.
\<close>

theorem findSunLongitudeEvent_windows_witness:
  "getTime example_date = Some 1736044340000
   \<and> findSunLongitudeEvent (example_oracle 270) 270 example_date =
       (Inr (newDate (Some 1734772834000)),
        [SearchSunLongitudeCall 270 (newDate (Some (1736044340000 - 40 * 86400000))) 80])
   \<and> findSunLongitudeEvent late_oracle 270 example_date =
       (Inr (newDate (Some 1736044367000)),
        [SearchSunLongitudeCall 270 (newDate (Some (1736044340000 - 40 * 86400000))) 80,
         SearchSunLongitudeCall 270 (newDate (Some (1736044340000 - 200 * 86400000))) 400])
   \<and> windows_as_specified 1736044340000 (snd (findSunLongitudeEvent (example_oracle 270) 270 example_date))
   \<and> windows_as_specified 1736044340000 (snd (findSunLongitudeEvent late_oracle 270 example_date))"
proof -
  have t: "getTime example_date = Some 1736044340000" by (simp add: example_date_def getTime_newDate)
  have n: "norm360 270 = 270" by (rule norm360_id) simp_all
  have w1: "findSunLongitudeEvent (example_oracle 270) 270 example_date =
       (Inr (newDate (Some 1734772834000)),
        [SearchSunLongitudeCall 270 (newDate (Some (1736044340000 - 40 * 86400000))) 80])"
    using findSunLongitudeEvent_windows [OF t, of "example_oracle 270" 270]
    by (simp add: n example_oracle_def example_search_def example_event_def getTime_newDate
        valid_date_AstroTime)
  have w2: "findSunLongitudeEvent late_oracle 270 example_date =
       (Inr (newDate (Some 1736044367000)),
        [SearchSunLongitudeCall 270 (newDate (Some (1736044340000 - 40 * 86400000))) 80,
         SearchSunLongitudeCall 270 (newDate (Some (1736044340000 - 200 * 86400000))) 400])"
    using findSunLongitudeEvent_windows [OF t, of late_oracle 270]
    by (simp add: n late_oracle_def late_search_def getTime_newDate valid_date_AstroTime
        valid_date_Falsy)
  have w3: "windows_as_specified 1736044340000
      (snd (findSunLongitudeEvent (example_oracle 270) 270 example_date))"
    using findSunLongitudeEvent_windows [OF t, of "example_oracle 270" 270, THEN conjunct2]
    by simp
  have w4: "windows_as_specified 1736044340000
      (snd (findSunLongitudeEvent late_oracle 270 example_date))"
    using findSunLongitudeEvent_windows [OF t, of late_oracle 270, THEN conjunct2]
    by simp
  show ?thesis by (intro conjI t w1 w2 w3 w4)
qed

text \<open>
  The claim as stated, for any center instant, fails at a center date 100 days after the
  earliest instant of a \<^verbatim>\<open>Date\<close>, with an oracle that finds nothing: \<open>c - 200 days\<close> is before
  that earliest instant, \<^verbatim>\<open>new Date\<close> makes an invalid date of it, and the second search is
  called with that invalid date, not with the instant 200 days before the center.
\<close>

theorem findSunLongitudeEvent_windows_counterexample:
  "getTime early_date = Some (- 8639991360000000)
   \<and> findSunLongitudeEvent never_oracle 270 early_date =
       (Inl (FailedToFindSunLongitudeEvent 270),
        [SearchSunLongitudeCall 270 (newDate (Some (- 8639994816000000))) 80,
         SearchSunLongitudeCall 270 (newDate None) 400])
   \<and> map search_window (snd (findSunLongitudeEvent never_oracle 270 early_date)) =
       [Some (Some (- 8639994816000000), 80), Some (None, 400)]
   \<and> \<not> windows_as_specified (- 8639991360000000)
         (snd (findSunLongitudeEvent never_oracle 270 early_date))"
proof -
  have t: "getTime early_date = Some (- 8639991360000000)"
    by (simp add: early_date_def getTime_newDate)
  have n: "norm360 270 = 270" by (rule norm360_id) simp_all
  have d: "newDate (Some (- 8640008640000000)) = newDate None"
    by transfer simp
  have f: "findSunLongitudeEvent never_oracle 270 early_date =
       (Inl (FailedToFindSunLongitudeEvent 270),
        [SearchSunLongitudeCall 270 (newDate (Some (- 8639994816000000))) 80,
         SearchSunLongitudeCall 270 (newDate None) 400])"
    by (simp add: findSunLongitudeEvent_unfold t n d never_oracle_def never_search_def
        valid_date_Falsy)
  show ?thesis
    by (simp add: t f getTime_newDate windows_as_specified_def MS_PER_DAY_def)
qed

text \<open>
  C5. With the oracle present, a valid query instant and a longitude reading that is a
  finite number: let \<open>idx0\<close> be the index derived from the longitude and \<open>idx\<close> the index
  after the correction. When the search (both windows) finds no boundary for \<open>idx0\<close>, for
  \<open>idx\<close>, for its predecessor or for its successor, \<open>getSolarTermInfo\<close> throws the error of
  the failed boundary search and returns no result; otherwise it returns a result. In
  particular, when no search ever yields a valid date, it throws that error for the
  longitude of \<open>idx0\<close>.
\<close>

theorem boundary_failure_propagates:
  assumes A: "assertAstronomy G = ok A"
    and t: "getTime (toDate inputDate) = Some t"
    and e: "is_double (sunPosition A (toDate inputDate))"
    and i0: "idx0 = termIndexFromElon (norm360 (sunPosition A (toDate inputDate)))"
    and ix: "idx = (if js_gt (boundary A (toDate inputDate) idx0) (Some t) then (idx0 + 23) mod 24 else idx0)"
  shows "(if boundary A (toDate inputDate) idx0 = None \<or> boundary A (toDate inputDate) idx = None
          \<or> boundary A (toDate inputDate) (idx + 23) = None
          \<or> boundary A (toDate inputDate) (idx + 1) = None
        then \<exists>l. fst (getSolarTermInfo G now inputDate) = Inl (FailedToFindSunLongitudeEvent l)
        else \<exists>r. fst (getSolarTermInfo G now inputDate) = Inr r)
    \<and> (if \<forall>l s n. valid_date (toDateFromAstroTime (searchSunLongitude A l s n)) = None
        then \<exists>calls. getSolarTermInfo G now inputDate =
          (Inl (FailedToFindSunLongitudeEvent (lon (SOLAR_TERMS ! nat idx0))), calls)
        else True)"
proof -
  define date where "date = toDate inputDate"
  note r0 = termIndex_of_oracle [OF e, folded i0]
  then have m0: "idx0 mod 24 = idx0" by simp
  have r1: "0 \<le> idx" "idx < 24" using r0 by (auto simp: ix)
  then have m1: "idx mod 24 = idx" by simp
  obtain res calls where R: "getSolarTermInfo G now inputDate = (res, calls)" by force
  have part1: "(if boundary A date idx0 = None \<or> boundary A date idx = None
          \<or> boundary A date (idx + 23) = None \<or> boundary A date (idx + 1) = None
        then \<exists>l. res = Inl (FailedToFindSunLongitudeEvent l)
        else \<exists>r. res = Inr r)"
  proof (cases res)
    case (Inl err)
    with getSolarTermInfo_Inl [OF A t e, of now err calls] R
    obtain l where l: "res = Inl (FailedToFindSunLongitudeEvent l)" by auto
    have "boundary A date idx0 = None \<or> boundary A date idx = None
          \<or> boundary A date (idx + 23) = None \<or> boundary A date (idx + 1) = None"
    proof (rule ccontr)
      assume "\<not> ?thesis"
      then obtain t0 t1 t2 t3 where b: "boundary A date idx0 = Some t0" "boundary A date idx = Some t1"
        "boundary A date (idx + 23) = Some t2" "boundary A date (idx + 1) = Some t3" by auto
      from boundary_Some [OF b(1)] obtain cs0 c0
        where f0: "findSunLongitudeEvent A (lon (SOLAR_TERMS ! nat idx0)) date = (Inr cs0, c0)"
          and g0: "getTime cs0 = Some t0" unfolding m0 by blast
      from boundary_Some [OF b(2)] obtain cs c1
        where f1: "findSunLongitudeEvent A (lon (SOLAR_TERMS ! nat idx)) date = (Inr cs, c1)"
        unfolding m1 by blast
      from boundary_Some [OF b(3)] obtain ps c2
        where f2: "findSunLongitudeEvent A (lon (SOLAR_TERMS ! nat ((idx + 23) mod 24))) date = (Inr ps, c2)"
        by blast
      from boundary_Some [OF b(4)] obtain ns c3
        where f3: "findSunLongitudeEvent A (lon (SOLAR_TERMS ! nat ((idx + 1) mod 24))) date = (Inr ns, c3)"
        by blast
      have ix': "idx = (if js_gt (getTime cs0) (Some t) then (idx0 + 23) mod 24 else idx0)"
        using ix by (simp add: date_def [symmetric] b(1) g0)
      from getSolarTermInfo_eval [OF A date_def [symmetric] t [folded date_def] i0 [symmetric, folded date_def]
          r0 [THEN conjunct1] r0 [THEN conjunct2] f0 ix' f1 f2 f3, of now] R Inl
      show False by simp
    qed
    with l show ?thesis by simp
  next
    case (Inr r)
    with R have run: "getSolarTermInfo G now inputDate = (Inr r, calls)" by simp
    from run obtain A' t' cs0 c0 cs c1 ps c2 ns c3 idx0' idx'
      where h: "assertAstronomy G = ok A'" "getTime (toDate inputDate) = Some t'"
        "idx0' = termIndexFromElon (norm360 (sunPosition A' (toDate inputDate)))"
        "findSunLongitudeEvent A' (lon (SOLAR_TERMS ! nat idx0')) (toDate inputDate) = (Inr cs0, c0)"
        "idx' = (if js_gt (getTime cs0) (Some t') then (idx0' + 23) mod 24 else idx0')"
        "findSunLongitudeEvent A' (lon (SOLAR_TERMS ! nat idx')) (toDate inputDate) = (Inr cs, c1)"
        "findSunLongitudeEvent A' (lon (SOLAR_TERMS ! nat ((idx' + 23) mod 24))) (toDate inputDate) = (Inr ps, c2)"
        "findSunLongitudeEvent A' (lon (SOLAR_TERMS ! nat ((idx' + 1) mod 24))) (toDate inputDate) = (Inr ns, c3)"
      by (rule getSolarTermInfo_result)
    from h(1) A have A': "A' = A" by (simp add: ok_def)
    from h(2) t have t': "t' = t" by simp
    from h(3) i0 have i': "idx0' = idx0" by (simp add: A')
    from boundary_of_find [of A idx0 date cs0 c0] h(4)
    obtain t0 where b0: "boundary A date idx0 = Some t0" "getTime cs0 = Some t0"
      by (auto simp: A' i' m0 date_def)
    from h(5) ix have ii: "idx' = idx" by (simp add: t' i' b0 date_def [symmetric])
    from boundary_of_find [of A idx date cs c1] h(6)
    have b1: "boundary A date idx \<noteq> None" by (auto simp: A' ii m1 date_def)
    from boundary_of_find [of A "idx + 23" date ps c2] h(7)
    have b2: "boundary A date (idx + 23) \<noteq> None" by (auto simp: A' ii date_def)
    from boundary_of_find [of A "idx + 1" date ns c3] h(8)
    have b3: "boundary A date (idx + 1) \<noteq> None" by (auto simp: A' ii date_def)
    from b0 b1 b2 b3 Inr show ?thesis by simp
  qed
  have part2: "\<exists>calls'. (res, calls) =
          (Inl (FailedToFindSunLongitudeEvent (lon (SOLAR_TERMS ! nat idx0))), calls')"
    if nf: "\<forall>l s n. valid_date (toDateFromAstroTime (searchSunLongitude A l s n)) = None"
  proof -
    have f: "findSunLongitudeEvent A l d = (Inl (FailedToFindSunLongitudeEvent l),
        [SearchSunLongitudeCall (norm360 l) (newDate (map_option (\<lambda>c. c - 3456000000) (getTime d))) 80,
         SearchSunLongitudeCall (norm360 l) (newDate (map_option (\<lambda>c. c - 17280000000) (getTime d))) 400])"
      for l d
      by (simp add: findSunLongitudeEvent_unfold Let_def nf)
    have nt: "getTime (toDate inputDate) \<noteq> None" using t by simp
    have ta: "term_at (termIndexFromElon (norm360 (sunPosition A (toDate inputDate))))
        = ok (SOLAR_TERMS ! nat idx0)"
      using r0 unfolding i0 by (intro term_at_ok) simp_all
    have "fst (getSolarTermInfo G now inputDate)
        = Inl (FailedToFindSunLongitudeEvent (lon (SOLAR_TERMS ! nat idx0)))"
      unfolding getSolarTermInfo_phases A and_then_ok
      by (simp only: nt if_False) (simp add: and_then_def callSunPosition_def ta ok_def f)
    with R show ?thesis by simp
  qed
  from part2 have p2: "(if \<forall>l s n. valid_date (toDateFromAstroTime (searchSunLongitude A l s n)) = None
        then \<exists>calls'. (res, calls) =
          (Inl (FailedToFindSunLongitudeEvent (lon (SOLAR_TERMS ! nat idx0))), calls')
        else True)" by simp
  from part1 p2 show ?thesis unfolding R date_def fst_conv by (rule conjI)
qed

text \<open>
  The theorem at two examples: the oracle that never finds anything, and the example
  oracle at a query in the term DaXue, where the boundary of the current term is found
  and that of the previous term (longitude 240) is not.
\<close>

theorem boundary_failure_propagates_witness:
  "assertAstronomy never_astronomy = ok never_oracle
   \<and> getTime (toDate (DateInput example_date)) = Some 1736044340000
   \<and> is_double (sunPosition never_oracle (toDate (DateInput example_date)))
   \<and> (\<exists>calls. getSolarTermInfo never_astronomy example_now (DateInput example_date)
         = (Inl (FailedToFindSunLongitudeEvent 270), calls))
   \<and> assertAstronomy (example_astronomy (517 / 2)) = ok (example_oracle (517 / 2))
   \<and> getTime (toDate (DateInput daxue_date)) = Some 1733800000000
   \<and> is_double (sunPosition (example_oracle (517 / 2)) (toDate (DateInput daxue_date)))
   \<and> boundary (example_oracle (517 / 2)) (toDate (DateInput daxue_date)) 20 = Some 1733498222000
   \<and> boundary (example_oracle (517 / 2)) (toDate (DateInput daxue_date)) 43 = None
   \<and> (\<exists>l. fst (getSolarTermInfo (example_astronomy (517 / 2)) example_now (DateInput daxue_date))
         = Inl (FailedToFindSunLongitudeEvent l))"
proof -
  have a1: "assertAstronomy never_astronomy = ok never_oracle"
    by (simp add: assertAstronomy_def never_astronomy_def never_oracle_def)
  have s1: "sunPosition never_oracle d = example_elon_before" for d
    by (simp add: never_oracle_def)
  have d1: "is_double (sunPosition never_oracle (toDate (DateInput example_date)))"
    by (simp add: s1 is_double_example_elon_before)
  have nf: "\<forall>l s n. valid_date (toDateFromAstroTime (searchSunLongitude never_oracle l s n)) = None"
    by (simp add: never_oracle_def never_search_def valid_date_Falsy)
  from boundary_failure_propagates [OF a1 example_time d1 refl refl, of example_now,
      THEN conjunct2] nf
  have w1: "\<exists>calls. getSolarTermInfo never_astronomy example_now (DateInput example_date)
         = (Inl (FailedToFindSunLongitudeEvent 270), calls)"
    using termIndex_before_285 by (simp add: s1 SOLAR_TERMS_nth)
  let ?A = "example_oracle (517 / 2)"
  have t2: "getTime (toDate (DateInput daxue_date)) = Some 1733800000000"
    by (simp add: toDate_def daxue_date_def getTime_newDate)
  have d2: "is_double (sunPosition ?A (toDate (DateInput daxue_date)))"
    by (simp add: example_sunPosition is_double_517_2)
  have i2: "termIndexFromElon (norm360 (sunPosition ?A (toDate (DateInput daxue_date)))) = 20"
    using termIndex_258 by (simp add: example_sunPosition)
  have n: "norm360 255 = 255" "norm360 240 = 240" by (rule norm360_id, simp, simp)+
  have b20: "boundary ?A (toDate (DateInput daxue_date)) 20 = Some 1733498222000"
    by (simp add: boundary_def SOLAR_TERMS_nth findSunLongitudeEvent_unfold example_oracle_def
        example_search_def example_event_def toDate_def daxue_date_def getTime_newDate n
        valid_date_AstroTime)
  have b19: "boundary ?A (toDate (DateInput daxue_date)) 43 = None"
    by (simp add: boundary_def SOLAR_TERMS_nth_19 findSunLongitudeEvent_unfold example_oracle_def
        example_search_def example_event_def toDate_def n valid_date_Falsy)
  have g: "\<not> js_gt (Some 1733498222000) (Some 1733800000000)" by (simp add: js_gt_def)
  from boundary_failure_propagates [OF assertAstronomy_example t2 d2 refl refl, of example_now,
      THEN conjunct1]
  have w2: "\<exists>l. fst (getSolarTermInfo (example_astronomy (517 / 2)) example_now (DateInput daxue_date))
         = Inl (FailedToFindSunLongitudeEvent l)"
    unfolding i2 b20 by (simp add: g b19)
  show ?thesis
    by (intro conjI a1 example_time d1 w1 assertAstronomy_example t2 d2 b20 b19 w2)
qed

text \<open>
  C8. The claim holds but for the upper bound of \<open>norm360\<close>: \<open>termIndexFromElon\<close> returns an
  integer between 0 and 23 for every finite binary64 argument (lemma
  \<open>termIndexFromElon_range\<close>) and \<open>norm360\<close> returns a value between 0 and 360 (lemma
  \<open>norm360_range\<close>), but 360 itself is reached: for the double \<open>-2^-60\<close> the remainder is the
  argument itself, it is negative, and the sum with 360 rounds to 360.
\<close>

theorem norm360_reaches_360:
  "is_double (- (1 / 2 ^ 60)) \<and> norm360 (- (1 / 2 ^ 60)) = 360 \<and> \<not> norm360 (- (1 / 2 ^ 60)) < 360"
proof -
  define x :: real where "x = - (1 / 2 ^ 60)"
  have d: "is_double x" using is_double_dyadic [of "- 1" 60] by (simp add: x_def)
  have neg: "x < 0" by (simp add: x_def)
  have r: "js_rem x 360 = x" by (rule js_rem_small) (simp add: x_def)
  have b: "binade \<bar>x + 360\<bar> = 8" by (rule binade_eq) (simp_all add: x_def)
  have e: "round_even ((x + 360) / 2 powi (8 - 52)) = 360 * 2 ^ 44"
    by (simp add: x_def round_even_def Let_def power_int_minus)
  have f: "fl (x + 360) = 360"
    unfolding fl_grid b e by (simp add: power_int_minus)
  have n: "norm360 x = 360" using neg by (simp add: norm360_def Let_def r f)
  from d n show ?thesis unfolding x_def by simp
qed

end
